theory Spec2Isabelle
  imports Main "HOL-Library.Word"
begin

unbundle bit_operations_syntax

section \<open>Strings and regular expressions of the host language\<close>

text \<open>
  A string is a list of code units. The type \<open>char\<close> covers the code units 0 to 255
  (the Latin-1 range); every pattern of the program is ASCII, and no character outside
  ASCII folds to an ASCII character under the ignore-case flag.
\<close>

text \<open>The white space recognised by \<^verbatim>\<open>String.prototype.trim\<close> and by \<^verbatim>\<open>\s\<close>:
  TAB, LF, VT, FF, CR, SPACE and NBSP.\<close>

definition whiteSpaceChars :: string where
  "whiteSpaceChars = [CHR 0x09, CHR 0x0A, CHR 0x0B, CHR 0x0C, CHR 0x0D, CHR 0x20, CHR 0xA0]"

definition isWhiteSpace :: "char \<Rightarrow> bool" where
  "isWhiteSpace c = (c \<in> set whiteSpaceChars)"

definition trim :: "string \<Rightarrow> string" where
  "trim s = rev (dropWhile isWhiteSpace (rev (dropWhile isWhiteSpace s)))"

text \<open>The characters of \<^verbatim>\<open>\w\<close>.\<close>

definition wordChars :: string where
  "wordChars = ''abcdefghijklmnopqrstuvwxyzABCDEFGHIJKLMNOPQRSTUVWXYZ0123456789_''"

definition isWordChar :: "char \<Rightarrow> bool" where
  "isWordChar c = (c \<in> set wordChars)"

text \<open>Case folding of the ignore-case flag (\<^verbatim>\<open>/i\<close>): a lower-case ASCII letter is
  compared through its upper-case form.\<close>

definition lowerLetters :: string where
  "lowerLetters = ''abcdefghijklmnopqrstuvwxyz''"

definition upperLetters :: string where
  "upperLetters = ''ABCDEFGHIJKLMNOPQRSTUVWXYZ''"

definition canonicalize :: "char \<Rightarrow> char" where
  "canonicalize c = (case map_of (zip lowerLetters upperLetters) c of Some u \<Rightarrow> u | None \<Rightarrow> c)"

text \<open>A character class \<^verbatim>\<open>[...]\<close> under \<^verbatim>\<open>/i\<close>, given by its members.\<close>

definition ignoreCase :: "string \<Rightarrow> char \<Rightarrow> bool" where
  "ignoreCase cls c = list_ex (\<lambda>a. canonicalize a = canonicalize c) cls"

text \<open>
  The fragment of the pattern language the program uses. \<open>Class p\<close> consumes one
  character satisfying \<open>p\<close>; \<open>Bol\<close> and \<open>Eol\<close> are \<^verbatim>\<open>^\<close> and \<^verbatim>\<open>$\<close> (without the
  multiline flag); \<open>WordBoundary\<close> is \<^verbatim>\<open>\b\<close>; \<open>Star\<close> is the greedy \<^verbatim>\<open>*\<close>;
  \<open>NotAhead\<close> is the negative lookahead \<^verbatim>\<open>(?!...)\<close>.
\<close>

datatype regex =
    Class "char \<Rightarrow> bool"
  | Eps
  | Bol
  | Eol
  | WordBoundary
  | Seq regex regex
  | Star regex
  | NotAhead regex

text \<open>A matcher state: the character before the current position (\<open>None\<close> at the
  start of the input) and the rest of the input.\<close>

type_synonym mstate = "char option \<times> string"

text \<open>
  The backtracking matcher: \<open>ms r x\<close> lists, in the order in which backtracking tries
  them, the states in which a match of \<open>r\<close> started at \<open>x\<close> can end. An iteration of
  \<open>Star\<close> that consumes nothing is rejected, as the language demands.
\<close>

function ms :: "regex \<Rightarrow> mstate \<Rightarrow> mstate list" where
  "ms (Class p) (l, []) = []"
| "ms (Class p) (l, c # cs) = (if p c then [(Some c, cs)] else [])"
| "ms Eps x = [x]"
| "ms Bol (l, s) = (if l = None then [(l, s)] else [])"
| "ms Eol (l, s) = (if s = [] then [(l, s)] else [])"
| "ms WordBoundary (l, s) =
     (if (case l of None \<Rightarrow> False | Some c \<Rightarrow> isWordChar c)
         \<noteq> (case s of [] \<Rightarrow> False | c # _ \<Rightarrow> isWordChar c)
      then [(l, s)] else [])"
| "ms (Seq a b) x = concat (map (ms b) (ms a x))"
| "ms (Star r) x =
     concat (map (\<lambda>y. if length (snd y) < length (snd x) then ms (Star r) y else []) (ms r x))
     @ [x]"
| "ms (NotAhead r) x = (if ms r x = [] then [x] else [])"
  by pat_completeness auto
termination
  by (relation "measures [\<lambda>(r, x). size r, \<lambda>(r, x). length (snd x)]") auto

fun seq :: "regex list \<Rightarrow> regex" where
  "seq [] = Eps"
| "seq (r # rs) = Seq r (seq rs)"

text \<open>\<^verbatim>\<open>r{n}\<close>, \<^verbatim>\<open>r+\<close>, a literal character and a literal word under \<^verbatim>\<open>/i\<close>.\<close>

definition rep :: "nat \<Rightarrow> regex \<Rightarrow> regex" where
  "rep n r = seq (replicate n r)"

definition plus :: "regex \<Rightarrow> regex" where
  "plus r = Seq r (Star r)"

definition chr :: "char \<Rightarrow> regex" where
  "chr a = Class (ignoreCase [a])"

definition lit :: "string \<Rightarrow> regex" where
  "lit w = seq (map chr w)"

text \<open>\<^verbatim>\<open>RegExp.prototype.test\<close> without the global flag: is there a match starting at
  some position of the input?\<close>

fun search :: "regex \<Rightarrow> char option \<Rightarrow> string \<Rightarrow> bool" where
  "search r l [] = (ms r (l, []) \<noteq> [])"
| "search r l (c # cs) = (ms r (l, c # cs) \<noteq> [] \<or> search r (Some c) cs)"

definition test :: "regex \<Rightarrow> string \<Rightarrow> bool" where
  "test r s = search r None s"

text \<open>
  \<^verbatim>\<open>String.prototype.replace\<close> with a global pattern and a replacement string without
  \<^verbatim>\<open>$\<close>: the input is scanned from the left; at a position where the pattern matches, the
  first match in backtracking order is replaced and the scan goes on behind it; after an
  empty match the scan moves one character on.
\<close>

function replaceAll :: "regex \<Rightarrow> string \<Rightarrow> char option \<Rightarrow> string \<Rightarrow> string" where
  "replaceAll r new l [] = (if ms r (l, []) \<noteq> [] then new else [])"
| "replaceAll r new l (c # cs) =
     (case ms r (l, c # cs) of
        [] \<Rightarrow> c # replaceAll r new (Some c) cs
      | (l', rest) # _ \<Rightarrow>
          if length rest < length (c # cs) then new @ replaceAll r new l' rest
          else new @ c # replaceAll r new (Some c) cs)"
  by pat_completeness auto
termination
  by (relation "measure (\<lambda>(r, new, l, s). length s)") auto

definition replace :: "regex \<Rightarrow> string \<Rightarrow> string \<Rightarrow> string" where
  "replace r new s = replaceAll r new None s"

section \<open>Validation utilities\<close>

text \<open>\<^verbatim>\<open>/^[0-9a-f]{8}-[0-9a-f]{4}-[0-9a-f]{4}-[0-9a-f]{4}-[0-9a-f]{12}$/i\<close>\<close>

definition hexClass :: regex where
  "hexClass = Class (ignoreCase ''0123456789abcdef'')"

definition dash :: regex where
  "dash = chr CHR ''-''"

definition uuidRegex :: regex where
  "uuidRegex = seq [Bol, rep 8 hexClass, dash, rep 4 hexClass, dash, rep 4 hexClass, dash,
                    rep 4 hexClass, dash, rep 12 hexClass, Eol]"

text \<open>\<^verbatim>\<open>isValidUUID\<close> of the client hook and \<^verbatim>\<open>validateUUID\<close> of the remote handler are
  the same function.\<close>

definition isValidUUID :: "string \<Rightarrow> bool" where
  "isValidUUID uuid = test uuidRegex uuid"

definition validateUUID :: "string \<Rightarrow> bool" where
  "validateUUID uuid = test uuidRegex uuid"

text \<open>A hexadecimal digit, of either case.\<close>

definition isHexDigit :: "char \<Rightarrow> bool" where
  "isHexDigit c = (c \<in> set ''0123456789abcdefABCDEF'')"

text \<open>What each of the 36 positions of an identifier must be (used in the proofs).\<close>

definition uuidClasses :: "(char \<Rightarrow> bool) list" where
  "uuidClasses =
     replicate 8 isHexDigit @ [\<lambda>c. c = CHR ''-''] @ replicate 4 isHexDigit @ [\<lambda>c. c = CHR ''-''] @
     replicate 4 isHexDigit @ [\<lambda>c. c = CHR ''-''] @ replicate 4 isHexDigit @ [\<lambda>c. c = CHR ''-''] @
     replicate 12 isHexDigit"

text \<open>The canonical 8-4-4-4-12 form in the words of the specification: 36 characters,
  hyphens at the positions 8, 13, 18 and 23, hexadecimal digits of either case elsewhere.\<close>

definition canonicalUUID :: "string \<Rightarrow> bool" where
  "canonicalUUID s =
     (length s = 36 \<and>
      (\<forall>i < 36. if i \<in> {8, 13, 18, 23} then s ! i = CHR ''-'' else isHexDigit (s ! i)))"

text \<open>
  \<^verbatim>\<open>sanitizeInput\<close>:
  \<^verbatim>\<open>/<script\b[^<]*(?:(?!<\/script>)<[^<]*)*<\/script>/gi\<close>, then \<^verbatim>\<open>/javascript:/gi\<close>, then
  \<^verbatim>\<open>/on\w+\s*=/gi\<close>, each replaced by the empty string, then \<^verbatim>\<open>trim\<close>.
\<close>

definition notLt :: regex where
  "notLt = Class (\<lambda>c. \<not> ignoreCase ''<'' c)"

definition scriptRegex :: regex where
  "scriptRegex =
     seq [lit ''<script'', WordBoundary, Star notLt,
          Star (seq [NotAhead (lit ''</script>''), chr CHR ''<'', Star notLt]),
          lit ''</script>'']"

definition javascriptRegex :: regex where
  "javascriptRegex = lit ''javascript:''"

definition handlerRegex :: regex where
  "handlerRegex =
     seq [lit ''on'', plus (Class (ignoreCase wordChars)), Star (Class (ignoreCase whiteSpaceChars)),
          chr CHR ''='']"

definition sanitizeInput :: "string \<Rightarrow> string" where
  "sanitizeInput input =
     trim (replace handlerRegex '''' (replace javascriptRegex '''' (replace scriptRegex '''' input)))"

subsection \<open>The sanitizer in the words of the specification\<close>

text \<open>
  The specification describes the sanitizer as a scan that removes three kinds of
  occurrences. \<open>removeMatches m 0 s\<close> scans \<open>s\<close> from the left; where \<open>m\<close> reports an
  occurrence of \<open>n\<close> characters at the current position, these are dropped and the scan
  goes on behind them. \<open>anywhere m s\<close> says that \<open>s\<close> has an occurrence at some position.
\<close>

text \<open>\<open>w\<close> is a prefix of \<open>s\<close>, letters compared without case.\<close>

definition ciPrefix :: "string \<Rightarrow> string \<Rightarrow> bool" where
  "ciPrefix w s = (length w \<le> length s \<and> map canonicalize (take (length w) s) = map canonicalize w)"

fun removeMatches :: "(string \<Rightarrow> nat option) \<Rightarrow> nat \<Rightarrow> string \<Rightarrow> string" where
  "removeMatches m k [] = []"
| "removeMatches m (Suc k) (c # cs) = removeMatches m k cs"
| "removeMatches m 0 (c # cs) =
     (case m (c # cs) of
        Some (Suc n) \<Rightarrow> removeMatches m n cs
      | _ \<Rightarrow> c # removeMatches m 0 cs)"

fun anywhere :: "(string \<Rightarrow> nat option) \<Rightarrow> string \<Rightarrow> bool" where
  "anywhere m [] = False"
| "anywhere m (c # cs) = (m (c # cs) \<noteq> None \<or> anywhere m cs)"

text \<open>The literal \<^verbatim>\<open>javascript:\<close>.\<close>

definition javascriptAt :: "string \<Rightarrow> nat option" where
  "javascriptAt s = (if ciPrefix ''javascript:'' s then Some 11 else None)"

text \<open>An inline event handler as the code removes it: \<^verbatim>\<open>on\<close>, a non-empty name of word
  characters, white space if any, and \<^verbatim>\<open>=\<close>.\<close>

definition handlerAt :: "string \<Rightarrow> nat option" where
  "handlerAt s =
     (let name = takeWhile isWordChar (drop 2 s);
          gap = takeWhile isWhiteSpace (drop (2 + length name) s)
      in if ciPrefix ''on'' s \<and> name \<noteq> [] \<and> take 1 (drop (2 + length name + length gap) s) = ''=''
         then Some (2 + length name + length gap + 1) else None)"

text \<open>An inline event handler as the specification writes the pattern, \<^verbatim>\<open>on\w+=\<close>: no
  white space between the name and \<^verbatim>\<open>=\<close>.\<close>

definition handlerNoGapAt :: "string \<Rightarrow> nat option" where
  "handlerNoGapAt s =
     (let name = takeWhile isWordChar (drop 2 s)
      in if ciPrefix ''on'' s \<and> name \<noteq> [] \<and> take 1 (drop (2 + length name) s) = ''=''
         then Some (2 + length name + 1) else None)"

text \<open>A script block: \<^verbatim>\<open><script\<close> not followed by a word character, everything up to the
  first \<^verbatim>\<open></script>\<close> behind it, and that closing tag. \<open>closeIndex s\<close> is the position of
  the first closing tag in \<open>s\<close>.\<close>

fun closeIndex :: "string \<Rightarrow> nat option" where
  "closeIndex [] = None"
| "closeIndex (c # cs) =
     (if ciPrefix ''</script>'' (c # cs) then Some 0 else map_option Suc (closeIndex cs))"

definition scriptBlockAt :: "string \<Rightarrow> nat option" where
  "scriptBlockAt s =
     (if ciPrefix ''<script'' s \<and> \<not> (case drop 7 s of [] \<Rightarrow> False | c # _ \<Rightarrow> isWordChar c)
      then map_option (\<lambda>n. 7 + n + 9) (closeIndex (drop 7 s)) else None)"

definition sanitizeSpec :: "string \<Rightarrow> string" where
  "sanitizeSpec s =
     trim (removeMatches handlerAt 0 (removeMatches javascriptAt 0 (removeMatches scriptBlockAt 0 s)))"

text \<open>Auxiliary notions for the proofs about the matcher: the character before the
  position reached after consuming \<open>xs\<close>, the class \<^verbatim>\<open>[^<]\<close>, and the parts of the script
  pattern.\<close>

definition lastOf :: "char option \<Rightarrow> string \<Rightarrow> char option" where
  "lastOf l xs = (if xs = [] then l else Some (last xs))"

definition isNotLt :: "char \<Rightarrow> bool" where
  "isNotLt c = (c \<noteq> CHR ''<'')"

abbreviation closeTag :: regex where
  "closeTag \<equiv> Seq (lit ''</script>'') Eps"

abbreviation innerGroup :: regex where
  "innerGroup \<equiv> Seq (NotAhead (lit ''</script>'')) (Seq (chr CHR ''<'') (Seq (Star (Class isNotLt)) Eps))"

abbreviation blockTail :: regex where
  "blockTail \<equiv> Seq (Star innerGroup) closeTag"

subsection \<open>Identifier generation\<close>

text \<open>
  \<^verbatim>\<open>generateUUID\<close>. The argument \<open>rnd\<close> gives the outcome of the random choices: \<open>rnd i\<close>
  is the value of \<^verbatim>\<open>Math.random() * 16 | 0\<close> at the \<open>i\<close>-th call of the replacer (a
  number from 0 to 15, since \<^verbatim>\<open>Math.random()\<close> lies in [0, 1)).
\<close>

function toString16 :: "nat \<Rightarrow> string" where
  "toString16 n =
     (if n < 16 then [''0123456789abcdef'' ! n]
      else toString16 (n div 16) @ [''0123456789abcdef'' ! (n mod 16)])"
  by pat_completeness auto
termination
  by (relation "measure id") auto

definition uuidReplacer :: "nat \<Rightarrow> char \<Rightarrow> string" where
  "uuidReplacer r c = (let v = (if c = CHR ''x'' then r else (r AND 3) OR 8) in toString16 v)"

fun replaceXY :: "(nat \<Rightarrow> nat) \<Rightarrow> nat \<Rightarrow> string \<Rightarrow> string" where
  "replaceXY rnd i [] = []"
| "replaceXY rnd i (c # cs) =
     (if c = CHR ''x'' \<or> c = CHR ''y'' then uuidReplacer (rnd i) c @ replaceXY rnd (Suc i) cs
      else c # replaceXY rnd i cs)"

definition generateUUID :: "(nat \<Rightarrow> nat) \<Rightarrow> string" where
  "generateUUID rnd = replaceXY rnd 0 ''xxxxxxxx-xxxx-4xxx-yxxx-xxxxxxxxxxxx''"

text \<open>The digits \<^verbatim>\<open>toString(16)\<close> produces.\<close>

definition lowerHex :: "char \<Rightarrow> bool" where
  "lowerHex c = (c \<in> set ''0123456789abcdef'')"

section \<open>Values of the host language\<close>

text \<open>An optional string is \<open>None\<close> for \<^verbatim>\<open>undefined\<close> or \<^verbatim>\<open>null\<close>. It is truthy when it
  is a non-empty string; \<open>orElse\<close> is \<^verbatim>\<open>||\<close>.\<close>

definition truthy :: "string option \<Rightarrow> bool" where
  "truthy x = (case x of None \<Rightarrow> False | Some s \<Rightarrow> s \<noteq> [])"

definition orElse :: "string option \<Rightarrow> string option \<Rightarrow> string option" where
  "orElse a b = (if truthy a then a else b)"

text \<open>\<^verbatim>\<open>||\<close> with a string on the right: the left operand if it is truthy, else the right.\<close>

definition orDefault :: "string option \<Rightarrow> string \<Rightarrow> string" where
  "orDefault a d = (case a of None \<Rightarrow> d | Some s \<Rightarrow> if s \<noteq> [] then s else d)"

text \<open>\<^verbatim>\<open>String.prototype.includes\<close>.\<close>

fun includesStr :: "string \<Rightarrow> string \<Rightarrow> bool" where
  "includesStr [] sub = (sub = [])"
| "includesStr (c # cs) sub = (take (length sub) (c # cs) = sub \<or> includesStr cs sub)"

section \<open>The client hook\<close>

datatype InputType = Text | Image | Voice

record ProblemSubmissionData =
  title :: string
  inputType :: InputType
  textContent :: "string option"
  imageData :: "string option"
  voiceUrl :: "string option"
  description :: "string option"

record ProblemResult =
  resultId :: string
  status :: string
  solution :: "string option"
  explanation :: "string option"
  subject :: "string option"
  difficulty :: "string option"
  tags :: "string list option"
  errorMessage :: "string option"

text \<open>The authentication context of the hook (\<^verbatim>\<open>useAuth\<close>) and the session of the
  authentication provider; both are inputs of the model.\<close>

record User =
  userId :: "string option"
  isGuest :: bool

record AuthContext =
  user :: "User option"
  isAuthenticated :: bool

record Session =
  access_token :: "string option"

text \<open>The body of the request to the submission endpoint, which is also what the remote
  handler parses. A field that is \<open>None\<close> is \<^verbatim>\<open>undefined\<close>; \<^verbatim>\<open>JSON.stringify\<close> leaves such a
  field out, which \<open>bodyFields\<close> makes explicit.\<close>

record SecurityContext =
  ip_address :: "string option"
  user_agent :: "string option"
  device_fingerprint :: "string option"

record SecureProblemRequest =
  input_type :: "string option"
  req_title :: "string option"
  req_description :: "string option"
  text_content :: "string option"
  image_data :: "string option"
  voice_url :: "string option"
  user_id :: "string option"
  session_id :: "string option"
  security_context :: "SecurityContext option"

definition bodyFields :: "SecureProblemRequest \<Rightarrow> (string \<times> string) list" where
  "bodyFields b =
     concat (map (\<lambda>(k, v). case v of None \<Rightarrow> [] | Some s \<Rightarrow> [(k, s)])
       [(''input_type'', input_type b), (''title'', req_title b),
        (''description'', req_description b), (''text_content'', text_content b),
        (''image_data'', image_data b), (''voice_url'', voice_url b),
        (''user_id'', user_id b), (''session_id'', session_id b)])"

text \<open>The JSON envelope the endpoint answers with.\<close>

record ResponseBody =
  resp_success :: bool
  resp_problemId :: "string option"
  resp_sessionId :: "string option"
  resp_status :: "string option"
  resp_solution :: "string option"
  resp_subject :: "string option"
  resp_difficulty :: "string option"
  resp_tags :: "string list option"
  resp_error :: "string option"
  resp_details :: "string option"

text \<open>The error object of \<^verbatim>\<open>functions.invoke\<close>: an object with \<^verbatim>\<open>name\<close>,
  \<^verbatim>\<open>context.status\<close> and \<^verbatim>\<open>message\<close>, or a plain string.\<close>

datatype SubmitError =
    ErrorObject string "nat option" "string option"
  | ErrorString string

text \<open>A row of \<^verbatim>\<open>problem_submissions\<close>. \<open>row_ai_response\<close> is \<open>None\<close> unless the column
  holds an object. Time stamps are left out.\<close>

record AiResponse =
  ai_error :: "string option"
  ai_message :: "string option"
  suggested_tags :: "string list option"
  parsed_subject :: "string option"
  parsed_difficulty :: "string option"
  security_validated :: bool

record SubmissionRow =
  row_id :: string
  row_user_id :: "string option"
  row_session_id :: "string option"
  row_title :: string
  row_input_type :: string
  row_text_content :: "string option"
  row_image_url :: "string option"
  row_voice_url :: "string option"
  row_status :: string
  row_content_hash :: "string option"
  row_security_flags :: "string list"
  row_solution :: "string option"
  row_explanation :: "string option"
  row_topic :: "string option"
  row_subject :: "string option"
  row_difficulty :: "string option"
  row_tags :: "string list option"
  row_ai_response :: "AiResponse option"
  row_error_message :: "string option"

text \<open>What the hook does, in order: state updates, calls to the authentication provider,
  the call to the endpoint (body and \<^verbatim>\<open>Authorization\<close> header), timers, and status queries
  (identifier and the \<^verbatim>\<open>user_id\<close> filter, if any).\<close>

datatype event =
    SetError "string option"
  | SetResult "ProblemResult option"
  | SetIsSubmitting bool
  | GetSession
  | Invoke SecureProblemRequest "string option"
  | SetTimeout nat
  | Query string "string option"

text \<open>The outcome of one status query: an error with code and message, the row or
  \<^verbatim>\<open>null\<close>, or an exception.\<close>

datatype FetchResult =
    FetchError string string
  | FetchData "SubmissionRow option"
  | FetchThrows string

text \<open>The world the polling loop runs in: the session and the outcome of the query at
  each attempt (counted from 0).\<close>

record PollEnv =
  sessionAt :: "nat \<Rightarrow> Session option"
  fetchAt :: "nat \<Rightarrow> FetchResult"

text \<open>The world \<^verbatim>\<open>submitProblem\<close> runs in: the outcome of \<^verbatim>\<open>getSession\<close> (session and
  error), the answer of the endpoint to a request, the world of the polling loop, and the
  authentication context that \<^verbatim>\<open>pollForCompletion\<close> has captured (the callback is created
  once, with an empty dependency list).\<close>

record SubmitEnv =
  sessionResult :: "Session option \<times> string option"
  invoke :: "SecureProblemRequest \<Rightarrow> string option \<Rightarrow> ResponseBody option \<times> SubmitError option"
  pollEnv :: PollEnv
  pollContext :: AuthContext

subsection \<open>\<^verbatim>\<open>pollForCompletion\<close>\<close>

definition maxAttempts :: nat where
  "maxAttempts = 60"

text \<open>The error text derived from a row with status \<^verbatim>\<open>error\<close> (lines 296 to 304).\<close>

definition rowErrorMessage :: "SubmissionRow \<Rightarrow> string option" where
  "rowErrorMessage data =
     (if row_status data = ''error'' then
        (case row_ai_response data of
           Some ai \<Rightarrow>
             orElse (ai_error ai) (orElse (ai_message ai)
               (orElse (row_error_message data) (Some ''Problem processing failed'')))
         | None \<Rightarrow> orElse (row_error_message data) (Some ''Problem processing failed''))
      else None)"

definition rowTags :: "SubmissionRow \<Rightarrow> string list option" where
  "rowTags data =
     (case row_ai_response data of
        Some ai \<Rightarrow> (case suggested_tags ai of Some ts \<Rightarrow> Some ts | None \<Rightarrow> row_tags data)
      | None \<Rightarrow> row_tags data)"

definition newResult :: "SubmissionRow \<Rightarrow> ProblemResult" where
  "newResult data =
     \<lparr> resultId = row_id data,
       status = row_status data,
       solution = orElse (row_solution data) None,
       explanation = orElse (row_explanation data) (orElse (row_solution data) None),
       subject = orElse (row_topic data) (orElse (row_subject data) None),
       difficulty = orElse (row_difficulty data) None,
       tags = rowTags data,
       errorMessage = rowErrorMessage data \<rparr>"

definition fetchErrorMessage :: "string \<Rightarrow> string \<Rightarrow> string" where
  "fetchErrorMessage code message =
     (if code = ''PGRST116'' then ''Problem not found or access denied.''
      else if includesStr message ''invalid input syntax for type uuid''
        then ''Invalid problem ID format. Please try submitting again.''
      else if includesStr message ''JWT'' \<or> includesStr message ''authentication''
        then ''Authentication expired. Please sign in again.''
      else ''Failed to check problem status: '' @ message)"

definition userFilter :: "AuthContext \<Rightarrow> Session option \<Rightarrow> string option" where
  "userFilter ctx session =
     (case user ctx of
        Some u \<Rightarrow> if session \<noteq> None \<and> truthy (userId u) then userId u else None
      | None \<Rightarrow> None)"

text \<open>\<open>poll ctx env problemId attempts\<close> is what the timer callback \<^verbatim>\<open>poll\<close> does when the
  counter \<^verbatim>\<open>attempts\<close> has the given value, together with everything the callbacks it
  schedules do.\<close>

function poll :: "AuthContext \<Rightarrow> PollEnv \<Rightarrow> string \<Rightarrow> nat \<Rightarrow> event list" where
  "poll ctx env problemId attempts =
     (if \<not> isValidUUID problemId then
        [SetError (Some (''Failed to check problem status: '' @ ''Invalid problem ID format for polling''))]
      else
        GetSession # Query problemId (userFilter ctx (sessionAt env attempts)) #
        (case fetchAt env attempts of
           FetchThrows msg \<Rightarrow> [SetError (Some (''Failed to check problem status: '' @ msg))]
         | FetchError code message \<Rightarrow> [SetError (Some (fetchErrorMessage code message))]
         | FetchData None \<Rightarrow> [SetError (Some ''Problem not found. Please try submitting again.'')]
         | FetchData (Some data) \<Rightarrow>
             SetResult (Some (newResult data)) #
             (if row_status data = ''completed'' \<or> row_status data = ''error'' then
                (if row_status data = ''error''
                 then [SetError (orElse (rowErrorMessage data) (Some ''Problem processing failed''))]
                 else [])
              else if attempts + 1 < maxAttempts then
                SetTimeout 2000 # poll ctx env problemId (attempts + 1)
              else [SetError (Some ''Problem processing timed out. Please try again.'')])))"
  by pat_completeness auto
termination
  by (relation "measure (\<lambda>(ctx, env, problemId, attempts). maxAttempts - attempts)") auto

definition pollForCompletion :: "AuthContext \<Rightarrow> PollEnv \<Rightarrow> string \<Rightarrow> event list" where
  "pollForCompletion ctx env problemId = SetTimeout 1000 # poll ctx env problemId 0"

subsection \<open>\<^verbatim>\<open>submitProblem\<close>\<close>

definition inputTypeString :: "InputType \<Rightarrow> string" where
  "inputTypeString t = (case t of Text \<Rightarrow> ''text'' | Image \<Rightarrow> ''image'' | Voice \<Rightarrow> ''voice'')"

text \<open>The identity to use (lines 75 to 105): an error message, or the user identifier to
  send (if any) and the \<^verbatim>\<open>Authorization\<close> header (if any).\<close>

definition resolveUser ::
  "AuthContext \<Rightarrow> Session option \<Rightarrow> string + (string option \<times> string option)" where
  "resolveUser ctx session =
     (let uid = (case user ctx of None \<Rightarrow> None | Some u \<Rightarrow> userId u);
          token = (case session of None \<Rightarrow> None | Some s \<Rightarrow> access_token s)
      in if truthy token then
           (if truthy uid \<and> isValidUUID (orDefault uid [])
            then Inr (uid, Some (''Bearer '' @ orDefault token []))
            else Inl ''Invalid user session. Please sign in again.'')
         else if isAuthenticated ctx \<and> truthy uid then
           (if \<not> isValidUUID (orDefault uid [])
            then Inl ''Invalid user session. Please sign in again.''
            else Inr (uid, None))
         else if (case user ctx of None \<Rightarrow> False | Some u \<Rightarrow> isGuest u) then Inr (None, None)
         else Inl ''Please sign in to submit problems'')"

definition requestBody :: "ProblemSubmissionData \<Rightarrow> string option \<Rightarrow> SecureProblemRequest" where
  "requestBody d uid =
     \<lparr> input_type = Some (inputTypeString (inputType d)),
       req_title = Some (trim (title d)),
       req_description = map_option trim (description d),
       text_content = map_option trim (textContent d),
       image_data = imageData d,
       voice_url = voiceUrl d,
       user_id = uid,
       session_id = None,
       security_context = None \<rparr>"

text \<open>The message for an error of the endpoint call (lines 139 to 168); an empty string is
  no error.\<close>

definition isError :: "SubmitError option \<Rightarrow> bool" where
  "isError e = (case e of None \<Rightarrow> False | Some (ErrorString s) \<Rightarrow> s \<noteq> [] | Some _ \<Rightarrow> True)"

definition submitErrorMessage :: "SubmitError \<Rightarrow> string" where
  "submitErrorMessage e =
     (case e of
        ErrorObject name st msg \<Rightarrow>
          if name = ''FunctionsHttpError'' then
            (if st = Some 401 then ''Authentication failed. Please sign in again.''
             else if st = Some 403 then ''Access denied. Please check your permissions.''
             else ''AI service is temporarily unavailable. Please try again later.'')
          else if truthy msg then
            (if includesStr (orDefault msg []) ''Invalid or expired authentication token'' \<or>
                includesStr (orDefault msg []) ''JWT'' \<or>
                includesStr (orDefault msg []) ''authentication''
             then ''Authentication expired. Please sign in again.''
             else orDefault msg [])
          else ''Failed to submit problem to AI service''
      | ErrorString s \<Rightarrow> s)"

definition initialResult :: "string \<Rightarrow> ResponseBody \<Rightarrow> ProblemResult" where
  "initialResult pid response =
     \<lparr> resultId = pid,
       status = orDefault (resp_status response) ''pending'',
       solution = resp_solution response,
       explanation = None,
       subject = resp_subject response,
       difficulty = resp_difficulty response,
       tags = resp_tags response,
       errorMessage = None \<rparr>"

text \<open>What \<^verbatim>\<open>submitProblem\<close> does with the answer of the endpoint (lines 139 to 217): the
  state updates, and either the message of the error it throws or the identifier it returns
  with the polling loop it has started, if any.\<close>

definition interpretResponse ::
  "AuthContext \<Rightarrow> PollEnv \<Rightarrow> ResponseBody option \<times> SubmitError option \<Rightarrow>
     event list \<times> (string + string \<times> event list option)" where
  "interpretResponse pctx penv answer =
     (case answer of (response, submitError) \<Rightarrow>
        if isError submitError then
          ([], Inl (case submitError of Some e \<Rightarrow> submitErrorMessage e
                                      | None \<Rightarrow> ''Failed to submit problem to AI service''))
        else (case response of
          None \<Rightarrow> ([], Inl ''No response received from AI service'')
        | Some r \<Rightarrow>
            if \<not> resp_success r then
              ([], Inl (''AI service error: '' @
                        orDefault (resp_error r) (orDefault (resp_details r) ''AI processing failed'')))
            else if \<not> truthy (resp_problemId r) then
              ([], Inl ''Invalid response from AI service: missing problem ID'')
            else if \<not> isValidUUID (orDefault (resp_problemId r) []) then
              ([], Inl ''Invalid response format from AI service'')
            else
              (let pid = orDefault (resp_problemId r) [] in
               ([SetResult (Some (initialResult pid r))],
                Inr (pid,
                     if resp_status r = Some ''completed'' then None
                     else if resp_status r = Some ''processing'' \<or> resp_status r = Some ''pending''
                       then Some (pollForCompletion pctx penv pid)
                     else None)))))"

text \<open>The body of the \<^verbatim>\<open>try\<close> block (lines 66 to 217).\<close>

definition tryBody ::
  "AuthContext \<Rightarrow> SubmitEnv \<Rightarrow> ProblemSubmissionData \<Rightarrow>
     event list \<times> (string + string \<times> event list option)" where
  "tryBody ctx env d =
     (case sessionResult env of (session, sessionError) \<Rightarrow>
        if sessionError \<noteq> None then
          ([GetSession], Inl ''Authentication error. Please sign in again.'')
        else (case resolveUser ctx session of
          Inl msg \<Rightarrow> ([GetSession], Inl msg)
        | Inr (uid, auth) \<Rightarrow>
            (case interpretResponse (pollContext env) (pollEnv env)
                    (invoke env (requestBody d uid) auth) of
               (evs, r) \<Rightarrow> ([GetSession, Invoke (requestBody d uid) auth] @ evs, r))))"

text \<open>The outcome of a call: the value returned (\<open>None\<close> is \<^verbatim>\<open>null\<close>), what the call did
  before returning, and what the polling loop it left behind does, if it started one.\<close>

record SubmitOutcome =
  returned :: "string option"
  events :: "event list"
  polling :: "event list option"

definition submitProblem :: "AuthContext \<Rightarrow> SubmitEnv \<Rightarrow> ProblemSubmissionData \<Rightarrow> SubmitOutcome" where
  "submitProblem ctx env d =
     (let start = [SetError None, SetResult None, SetIsSubmitting True] in
      if trim (title d) = [] then
        \<lparr> returned = None,
          events = start @ [SetError (Some ''Problem title is required''), SetIsSubmitting False],
          polling = None \<rparr>
      else if \<not> truthy (map_option trim (textContent d)) \<and> \<not> truthy (imageData d)
              \<and> \<not> truthy (voiceUrl d) then
        \<lparr> returned = None,
          events = start @ [SetError (Some ''Problem content is required''), SetIsSubmitting False],
          polling = None \<rparr>
      else (case tryBody ctx env d of
        (evs, Inl msg) \<Rightarrow>
          \<lparr> returned = None,
            events = start @ evs @ [SetError (Some msg), SetIsSubmitting False],
            polling = None \<rparr>
      | (evs, Inr (pid, p)) \<Rightarrow>
          \<lparr> returned = Some pid,
            events = start @ evs @ [SetIsSubmitting False],
            polling = p \<rparr>))"

text \<open>Network calls in a trace, status queries in a trace, and the delays of its timers.\<close>

fun isNetworkCall :: "event \<Rightarrow> bool" where
  "isNetworkCall GetSession = True"
| "isNetworkCall (Invoke b h) = True"
| "isNetworkCall (Query i f) = True"
| "isNetworkCall e = False"

fun isQuery :: "event \<Rightarrow> bool" where
  "isQuery (Query i f) = True"
| "isQuery e = False"

fun delays :: "event list \<Rightarrow> nat list" where
  "delays [] = []"
| "delays (SetTimeout t # es) = t # delays es"
| "delays (e # es) = delays es"

text \<open>The derived error text in the words of the specification: \<^verbatim>\<open>ai_response.error\<close>, else
  \<^verbatim>\<open>ai_response.message\<close>, else \<^verbatim>\<open>error_message\<close>, else the fixed fallback.\<close>

definition derivedErrorText :: "SubmissionRow \<Rightarrow> string" where
  "derivedErrorText data =
     (let e = (case row_ai_response data of None \<Rightarrow> None | Some ai \<Rightarrow> ai_error ai);
          m = (case row_ai_response data of None \<Rightarrow> None | Some ai \<Rightarrow> ai_message ai)
      in if truthy e then orDefault e []
         else if truthy m then orDefault m []
         else if truthy (row_error_message data) then orDefault (row_error_message data) []
         else ''Problem processing failed'')"

section \<open>The remote submission handler\<close>

text \<open>\<^verbatim>\<open>String.prototype.toLowerCase\<close> on the code units 0 to 255, \<^verbatim>\<open>split('\n')\<close>, and the
  decimal form of a number in a template string.\<close>

definition toLowerCase :: "char \<Rightarrow> char" where
  "toLowerCase c =
     (let n = (of_char c :: nat)
      in if (65 \<le> n \<and> n \<le> 90) \<or> (192 \<le> n \<and> n \<le> 222 \<and> n \<noteq> 215) then char_of (n + 32) else c)"

fun splitLines :: "string \<Rightarrow> string list" where
  "splitLines [] = [[]]"
| "splitLines (c # cs) =
     (if c = CHR 0x0A then [] # splitLines cs
      else case splitLines cs of [] \<Rightarrow> [[c]] | l # ls \<Rightarrow> (c # l) # ls)"

function showNat :: "nat \<Rightarrow> string" where
  "showNat n =
     (if n < 10 then [''0123456789'' ! n] else showNat (n div 10) @ [''0123456789'' ! (n mod 10)])"
  by pat_completeness auto
termination
  by (relation "measure id") auto

text \<open>The request as the handler sees it: \<^verbatim>\<open>OPTIONS\<close>, a request whose body parses, or one
  for which \<^verbatim>\<open>req.json()\<close> throws.\<close>

datatype HttpRequest =
    Options
  | Post SecureProblemRequest
  | Malformed string

text \<open>The response: the status and the JSON envelope (\<open>None\<close> for the plain \<^verbatim>\<open>ok\<close>).\<close>

record HttpResponse =
  http_status :: nat
  http_body :: "ResponseBody option"

text \<open>The changes an update makes to a row of \<^verbatim>\<open>problem_submissions\<close>: the new status, the
  columns it sets, and the security flags it adds.\<close>

record SubmissionUpdate =
  upd_status :: string
  upd_error_message :: "string option"
  upd_solution :: "string option"
  upd_topic :: "string option"
  upd_difficulty :: "string option"
  upd_tags :: "string list option"
  upd_ai_response :: "AiResponse option"
  upd_flags :: "string list"

text \<open>An update leaves a column it does not set as it was.\<close>

definition keep :: "'a option \<Rightarrow> 'a option \<Rightarrow> 'a option" where
  "keep new old = (case new of None \<Rightarrow> old | Some v \<Rightarrow> Some v)"

definition applyUpdate :: "SubmissionUpdate \<Rightarrow> SubmissionRow \<Rightarrow> SubmissionRow" where
  "applyUpdate u r =
     r \<lparr> row_status := upd_status u,
         row_error_message := keep (upd_error_message u) (row_error_message r),
         row_solution := keep (upd_solution u) (row_solution r),
         row_topic := keep (upd_topic u) (row_topic r),
         row_difficulty := keep (upd_difficulty u) (row_difficulty r),
         row_tags := keep (upd_tags u) (row_tags r),
         row_ai_response := keep (upd_ai_response u) (row_ai_response r),
         row_security_flags := row_security_flags r @ upd_flags u \<rparr>"

text \<open>What the handler does to the outside world, in order: inserts into \<^verbatim>\<open>users\<close> (id,
  email, guest flag), \<^verbatim>\<open>learning_sessions\<close> (user) and \<^verbatim>\<open>problem_submissions\<close>, audit
  entries (user, action, resource), updates of a submission and of a session, and the call
  to the generative-AI API (key and prompt).\<close>

datatype effect =
    InsertUser string string bool
  | InsertSession string
  | InsertSubmission SubmissionRow
  | InsertAudit string string string
  | UpdateSubmission string SubmissionUpdate
  | UpdateSession string string
  | CallGemini string string

text \<open>The answer of the generative-AI API: the call throws, answers with a status that is
  not ok, or answers with a document whose first candidate text may be missing.\<close>

datatype GeminiOutcome =
    GeminiThrows string
  | GeminiNotOk nat
  | GeminiOk "string option"

text \<open>The world the handler runs in: the random choices of \<^verbatim>\<open>generateUUID\<close>, the SHA-256
  digest (hex), the outcomes of the database calls, the API key of the environment, and the
  answer of the API.\<close>

record ServerEnv =
  randomDraw :: "nat \<Rightarrow> nat"
  sha256Hex :: "string \<Rightarrow> string"
  guestUserError :: "string option"
  newSession :: "string + string"
  insertError :: "string option"
  GOOGLE_API_KEY :: "string option"
  gemini :: GeminiOutcome
  updateError :: "string option"

text \<open>What the first part of the handler (lines 81 to 214) hands to the second.\<close>

record Created =
  c_userId :: string
  c_sessionId :: string
  c_problemId :: string
  c_contentHash :: string
  c_title :: string
  c_description :: "string option"
  c_textContent :: "string option"
  c_row :: SubmissionRow

text \<open>The answer of the \<^verbatim>\<open>catch\<close> block for an error with the given message.\<close>

definition failure :: "string \<Rightarrow> HttpResponse" where
  "failure msg =
     \<lparr> http_status = 500,
       http_body = Some \<lparr> resp_success = False, resp_problemId = None, resp_sessionId = None,
         resp_status = None, resp_solution = None, resp_subject = None, resp_difficulty = None,
         resp_tags = None, resp_error = Some msg,
         resp_details = Some ''Secure processing failed'' \<rparr> \<rparr>"

text \<open>\<^verbatim>\<open>x ? sanitizeInput(x) : undefined\<close>\<close>

definition sanitizeOptional :: "string option \<Rightarrow> string option" where
  "sanitizeOptional x = (if truthy x then Some (sanitizeInput (orDefault x [])) else None)"

definition createSubmission ::
  "ServerEnv \<Rightarrow> SecureProblemRequest \<Rightarrow> effect list \<times> (string + Created)" where
  "createSubmission env req =
     (if \<not> truthy (input_type req) \<or> \<not> truthy (req_title req) then
        ([], Inl ''Missing required fields: input_type and title are required'')
      else
        let sanitizedTitle = sanitizeInput (orDefault (req_title req) []);
            sanitizedDescription = sanitizeOptional (req_description req);
            sanitizedTextContent = sanitizeOptional (text_content req)
        in
        if input_type req = Some ''text'' \<and> \<not> truthy sanitizedTextContent then
          ([], Inl ''text_content is required for text input type'')
        else if truthy (user_id req)
                \<and> \<not> validateUUID (orDefault (user_id req) []) then
          ([], Inl ''Invalid user ID format'')
        else if truthy (session_id req)
                \<and> \<not> validateUUID (orDefault (session_id req) []) then
          ([], Inl ''Invalid session ID format'')
        else
          let guest = \<not> truthy (user_id req);
              userId = (if guest then generateUUID (randomDraw env)
                        else orDefault (user_id req) []);
              w1 = (if guest
                    then [InsertUser userId (''guest-'' @ userId @ ''@secure.local'') True]
                    else []);
              w2 = (if truthy (session_id req) then w1 else w1 @ [InsertSession userId])
          in
          case (if truthy (session_id req)
                then Inr (orDefault (session_id req) []) else newSession env) of
            Inl sessionError \<Rightarrow> (w2, Inl ''Failed to create secure session'')
          | Inr sessionId \<Rightarrow>
              let contentForHash = orDefault sanitizedTextContent
                    (orDefault (image_data req) (orDefault (voice_url req) []));
                  contentHash = sha256Hex env contentForHash;
                  problemId = generateUUID (\<lambda>i. randomDraw env (i + (if guest then 31 else 0)));
                  row = \<lparr> row_id = problemId,
                          row_user_id = Some userId,
                          row_session_id = Some sessionId,
                          row_title = sanitizedTitle,
                          row_input_type = orDefault (input_type req) [],
                          row_text_content = orElse sanitizedTextContent None,
                          row_image_url = orElse (image_data req) None,
                          row_voice_url = orElse (voice_url req) None,
                          row_status = ''processing'',
                          row_content_hash = Some contentHash,
                          row_security_flags =
                            [''validated'', ''sanitized'', ''hash_verified'', ''session_validated''],
                          row_solution = None, row_explanation = None, row_topic = None,
                          row_subject = None, row_difficulty = None, row_tags = None,
                          row_ai_response = None, row_error_message = None \<rparr>
              in
              (case insertError env of
                Some msg \<Rightarrow>
                  (w2 @ [InsertSubmission row],
                   Inl (''Failed to create secure problem submission: '' @ msg))
              | None \<Rightarrow>
                  (w2 @ [InsertSubmission row,
                         InsertAudit userId ''problem_submission_created'' problemId],
                   Inr \<lparr> c_userId = userId, c_sessionId = sessionId, c_problemId = problemId,
                         c_contentHash = contentHash, c_title = sanitizedTitle,
                         c_description = sanitizedDescription,
                         c_textContent = sanitizedTextContent, c_row = row \<rparr>)))"

text \<open>The prompt sent to the API (lines 248 to 276).\<close>

definition buildPrompt :: "Created \<Rightarrow> string" where
  "buildPrompt c =
     ''You are a secure AI tutor helping students learn. Please analyze this problem and provide a detailed, educational solution.\<newline>'' @
     ''\<newline>'' @
     ''SECURITY CONTEXT:\<newline>'' @
     ''- Content has been sanitized and validated\<newline>'' @
     ''- User session is authenticated\<newline>'' @
     ''- Content integrity verified with hash: '' @ take 8 (c_contentHash c) @ ''...\<newline>'' @
     ''\<newline>'' @
     ''PROBLEM DETAILS:\<newline>'' @
     ''Title: '' @ c_title c @ ''\<newline>'' @
     (if truthy (c_description c)
      then ''Description: '' @ orDefault (c_description c) [] @ ''\<newline>'' else []) @
     (if truthy (c_textContent c)
      then ''Problem Content: '' @ orDefault (c_textContent c) [] @ ''\<newline>'' else []) @
     ''\<newline>'' @
     ''Please provide:\<newline>'' @
     ''1. A clear, step-by-step solution\<newline>'' @
     ''2. Educational explanation of concepts involved\<newline>'' @
     ''3. The subject area (Mathematics, Science, History, English, etc.)\<newline>'' @
     ''4. Difficulty level (easy, medium, or hard)\<newline>'' @
     ''5. 3-5 relevant educational tags\<newline>'' @
     ''6. Learning objectives achieved\<newline>'' @
     ''\<newline>'' @
     ''Format your response as a structured educational explanation that helps the student understand both the solution and the underlying concepts. Ensure all content is appropriate for educational purposes.''"

text \<open>The keyword heuristics for subject and difficulty (lines 364 to 389).\<close>

definition parseSubject :: "string \<Rightarrow> string \<Rightarrow> string" where
  "parseSubject lowerLine current =
     (if includesStr lowerLine ''subject'' \<or> includesStr lowerLine ''area'' then
        (if includesStr lowerLine ''math'' then ''Mathematics''
         else if includesStr lowerLine ''science'' \<or> includesStr lowerLine ''physics'' \<or>
                 includesStr lowerLine ''chemistry'' \<or> includesStr lowerLine ''biology''
           then ''Science''
         else if includesStr lowerLine ''history'' then ''History''
         else if includesStr lowerLine ''english'' \<or> includesStr lowerLine ''literature''
           then ''English''
         else current)
      else current)"

definition parseDifficulty :: "string \<Rightarrow> string \<Rightarrow> string" where
  "parseDifficulty lowerLine current =
     (if includesStr lowerLine ''difficulty'' then
        (if includesStr lowerLine ''easy'' then ''easy''
         else if includesStr lowerLine ''hard'' then ''hard''
         else ''medium'')
      else current)"

fun parseLines :: "string list \<Rightarrow> string \<times> string \<Rightarrow> string \<times> string" where
  "parseLines [] acc = acc"
| "parseLines (line # rest) (subj, diff) =
     (let lowerLine = map toLowerCase line
      in parseLines rest (parseSubject lowerLine subj, parseDifficulty lowerLine diff))"

definition errorUpdate :: "string \<Rightarrow> SubmissionUpdate" where
  "errorUpdate msg =
     \<lparr> upd_status = ''error'', upd_error_message = Some msg, upd_solution = None,
       upd_topic = None, upd_difficulty = None, upd_tags = None, upd_ai_response = None,
       upd_flags = [''ai_processing_failed''] \<rparr>"

definition completedUpdate :: "string \<Rightarrow> string \<Rightarrow> string \<Rightarrow> string list \<Rightarrow> SubmissionUpdate" where
  "completedUpdate sanitizedSolution subj diff tgs =
     \<lparr> upd_status = ''completed'', upd_error_message = None,
       upd_solution = Some sanitizedSolution, upd_topic = Some subj,
       upd_difficulty = Some diff, upd_tags = Some tgs,
       upd_ai_response = Some \<lparr> ai_error = None, ai_message = None,
         suggested_tags = Some tgs, parsed_subject = Some subj,
         parsed_difficulty = Some diff, security_validated = True \<rparr>,
       upd_flags = [''ai_processing_completed'', ''solution_sanitized''] \<rparr>"

definition errorResponse :: "nat \<Rightarrow> string \<Rightarrow> string \<Rightarrow> HttpResponse" where
  "errorResponse code msg pid =
     \<lparr> http_status = code,
       http_body = Some \<lparr> resp_success = False, resp_problemId = Some pid, resp_sessionId = None,
         resp_status = None, resp_solution = None, resp_subject = None, resp_difficulty = None,
         resp_tags = None, resp_error = Some msg, resp_details = None \<rparr> \<rparr>"

text \<open>The second part of the handler (lines 216 to 469), after the submission row exists.\<close>

definition processSubmission :: "ServerEnv \<Rightarrow> Created \<Rightarrow> effect list \<times> HttpResponse" where
  "processSubmission env c =
     (if \<not> truthy (GOOGLE_API_KEY env) then
        ([UpdateSubmission (c_problemId c) (errorUpdate ''AI service temporarily unavailable'')],
         errorResponse 503 ''AI service temporarily unavailable'' (c_problemId c))
      else
        let call = CallGemini (orDefault (GOOGLE_API_KEY env) []) (buildPrompt c) in
        case gemini env of
          GeminiThrows msg \<Rightarrow> ([call], failure msg)
        | GeminiNotOk code \<Rightarrow>
            ([call, UpdateSubmission (c_problemId c)
                      (errorUpdate (''AI processing error: '' @ showNat code))],
             errorResponse 500 (''AI processing error: '' @ showNat code) (c_problemId c))
        | GeminiOk text \<Rightarrow>
            let solution = orDefault text ''No solution generated'';
                sanitizedSolution = sanitizeInput solution;
                parsed = parseLines (splitLines sanitizedSolution) (''General'', ''medium'');
                subject = fst parsed;
                difficulty = snd parsed;
                tags = [''learning'', ''education'', map toLowerCase subject];
                update = completedUpdate sanitizedSolution subject difficulty tags
            in
            (case updateError env of
              Some msg \<Rightarrow>
                ([call, UpdateSubmission (c_problemId c) update],
                 failure (''Failed to update secure problem submission: '' @ msg))
            | None \<Rightarrow>
                ([call, UpdateSubmission (c_problemId c) update,
                  UpdateSession (c_sessionId c) subject,
                  InsertAudit (c_userId c) ''problem_submission_completed'' (c_problemId c)],
                 \<lparr> http_status = 200,
                   http_body = Some \<lparr> resp_success = True, resp_problemId = Some (c_problemId c),
                     resp_sessionId = Some (c_sessionId c), resp_status = Some ''completed'',
                     resp_solution = Some sanitizedSolution, resp_subject = Some subject,
                     resp_difficulty = Some difficulty, resp_tags = Some tags,
                     resp_error = None, resp_details = None \<rparr> \<rparr>)))"

definition serve :: "ServerEnv \<Rightarrow> HttpRequest \<Rightarrow> effect list \<times> HttpResponse" where
  "serve env req =
     (case req of
        Options \<Rightarrow> ([], \<lparr> http_status = 200, http_body = None \<rparr>)
      | Malformed msg \<Rightarrow> ([], failure msg)
      | Post b \<Rightarrow>
          (case createSubmission env b of
             (ws, Inl msg) \<Rightarrow> (ws, failure msg)
           | (ws, Inr c) \<Rightarrow>
               (case processSubmission env c of (ws', response) \<Rightarrow> (ws @ ws', response))))"

text \<open>The successive states of the submission row that a sequence of effects writes.\<close>

fun rowStates :: "effect list \<Rightarrow> SubmissionRow option \<Rightarrow> SubmissionRow list" where
  "rowStates [] cur = []"
| "rowStates (InsertSubmission r # ws) cur = r # rowStates ws (Some r)"
| "rowStates (UpdateSubmission i u # ws) (Some r) =
     (if i = row_id r then applyUpdate u r # rowStates ws (Some (applyUpdate u r))
      else rowStates ws (Some r))"
| "rowStates (w # ws) cur = rowStates ws cur"

text \<open>The invariant of the specification, for a stored row (a column is present when it
  is not \<^verbatim>\<open>null\<close>) and for a result of the hook (a field is present when it is not
  \<^verbatim>\<open>undefined\<close>).\<close>

definition rowInvariant :: "SubmissionRow \<Rightarrow> bool" where
  "rowInvariant r =
     (((row_status r = ''completed'') = (row_solution r \<noteq> None \<and> row_error_message r = None)) \<and>
      ((row_status r = ''error'') = (row_error_message r \<noteq> None)))"

definition resultInvariant :: "ProblemResult \<Rightarrow> bool" where
  "resultInvariant r =
     (((status r = ''completed'') = (solution r \<noteq> None \<and> errorMessage r = None)) \<and>
      ((status r = ''error'') = (errorMessage r \<noteq> None)))"

section \<open>Notions used in the statements and proofs\<close>

text \<open>The row fetched at attempt \<open>n\<close> exists and its status is not terminal.\<close>

definition nonTerminal :: "PollEnv \<Rightarrow> nat \<Rightarrow> bool" where
  "nonTerminal env n =
     (case fetchAt env n of
        FetchData (Some data) \<Rightarrow> row_status data \<noteq> ''completed'' \<and> row_status data \<noteq> ''error''
      | _ \<Rightarrow> False)"

text \<open>What one polling attempt does when it fetches a row that is not terminal: session
  lookup, query, the new result, and then a timer of 2000 ms or, at the 60th attempt, the
  timeout message.\<close>

definition pendingAttempt :: "AuthContext \<Rightarrow> PollEnv \<Rightarrow> string \<Rightarrow> nat \<Rightarrow> event list" where
  "pendingAttempt ctx env pid n =
     [GetSession, Query pid (userFilter ctx (sessionAt env n))] @
     (case fetchAt env n of FetchData (Some data) \<Rightarrow> [SetResult (Some (newResult data))] | _ \<Rightarrow> []) @
     [if n + 1 < 60 then SetTimeout 2000
      else SetError (Some ''Problem processing timed out. Please try again.'')]"

text \<open>The effects that write to \<^verbatim>\<open>problem_submissions\<close>.\<close>

fun isSubmissionWrite :: "effect \<Rightarrow> bool" where
  "isSubmissionWrite (InsertSubmission r) = True"
| "isSubmissionWrite (UpdateSubmission i u) = True"
| "isSubmissionWrite w = False"

text \<open>A row as the handler inserts it: in process, without solution or error message.\<close>

definition processingRow :: "SubmissionRow \<Rightarrow> bool" where
  "processingRow r =
     (row_status r = ''processing'' \<and> row_solution r = None \<and> row_error_message r = None)"

section \<open>Concrete inputs for the examples\<close>

definition pendingRow :: SubmissionRow where
  "pendingRow =
     \<lparr> row_id = ''123e4567-e89b-42d3-a456-426614174000'', row_user_id = None,
       row_session_id = None, row_title = ''Q1'', row_input_type = ''text'',
       row_text_content = Some ''2+2?'', row_image_url = None, row_voice_url = None,
       row_status = ''processing'', row_content_hash = None, row_security_flags = [],
       row_solution = None, row_explanation = None, row_topic = None, row_subject = None,
       row_difficulty = None, row_tags = None, row_ai_response = None,
       row_error_message = None \<rparr>"

definition pendingWorld :: PollEnv where
  "pendingWorld = \<lparr> sessionAt = (\<lambda>n. None), fetchAt = (\<lambda>n. FetchData (Some pendingRow)) \<rparr>"

definition guestContext :: AuthContext where
  "guestContext = \<lparr> user = Some \<lparr> userId = None, isGuest = True \<rparr>, isAuthenticated = False \<rparr>"

definition failedRow :: SubmissionRow where
  "failedRow = pendingRow \<lparr> row_status := ''error'',
     row_ai_response := Some \<lparr> ai_error = None, ai_message = Some ''model overloaded'',
       suggested_tags = None, parsed_subject = None, parsed_difficulty = None,
       security_validated = False \<rparr>,
     row_error_message := Some ''AI processing error: 500'' \<rparr>"

definition failingWorld :: PollEnv where
  "failingWorld =
     \<lparr> sessionAt = (\<lambda>n. None),
       fetchAt = (\<lambda>n. if n < 2 then FetchData (Some pendingRow) else FetchData (Some failedRow)) \<rparr>"

definition blankTitle :: ProblemSubmissionData where
  "blankTitle = \<lparr> title = ''   '', inputType = Text, textContent = Some ''2+2?'',
     imageData = None, voiceUrl = None, description = None \<rparr>"

definition question :: ProblemSubmissionData where
  "question = \<lparr> title = '' Q1 '', inputType = Text, textContent = Some ''2+2?'',
     imageData = None, voiceUrl = None, description = None \<rparr>"

definition scriptQuestion :: ProblemSubmissionData where
  "scriptQuestion = \<lparr> title = ''Q1'', inputType = Text,
     textContent = Some ''<script>x</script>'', imageData = None, voiceUrl = None,
     description = None \<rparr>"

definition answeringServer :: ServerEnv where
  "answeringServer =
     \<lparr> randomDraw = (\<lambda>i. i mod 16),
       sha256Hex = (\<lambda>s. ''9f86d081884c7d659a2feaa0c55ad015a3bf4f1b2b0b822cd15d6c15b0f00a08''),
       guestUserError = None,
       newSession = Inr ''0a1b2c3d-0000-4000-8000-000000000001'',
       insertError = None,
       GOOGLE_API_KEY = Some ''key'',
       gemini = GeminiOk (Some ''Subject area: Math\<newline>Difficulty: easy\<newline>2+2 = 4''),
       updateError = None \<rparr>"


definition completedNoSolution :: SubmissionRow where
  "completedNoSolution = pendingRow \<lparr> row_status := ''completed'' \<rparr>"

definition pendingWithSolution :: SubmissionRow where
  "pendingWithSolution = pendingRow \<lparr> row_solution := Some ''4'' \<rparr>"

definition processingResponse :: ResponseBody where
  "processingResponse =
     \<lparr> resp_success = True, resp_problemId = Some ''123e4567-e89b-42d3-a456-426614174000'',
       resp_sessionId = None, resp_status = Some ''processing'', resp_solution = None,
       resp_subject = None, resp_difficulty = None, resp_tags = None, resp_error = None,
       resp_details = None \<rparr>"

definition guestWorld :: SubmitEnv where
  "guestWorld =
     \<lparr> sessionResult = (None, None),
       invoke = (\<lambda>b h. (Some processingResponse, None)),
       pollEnv = pendingWorld,
       pollContext = guestContext \<rparr>"

definition completedWorld :: SubmitEnv where
  "completedWorld =
     guestWorld \<lparr> invoke := (\<lambda>b h. (Some (processingResponse \<lparr> resp_status := Some ''completed'',
       resp_solution := Some ''4'' \<rparr>), None)) \<rparr>"

section \<open>Properties of the matcher\<close>

lemma concat_map_concat:
  "concat (map (\<lambda>y. concat (map g (f y))) xs) = concat (map g (concat (map f xs)))"
  by (induction xs) simp_all

lemma ms_seq_append: "ms (seq (rs @ qs)) x = concat (map (ms (seq qs)) (ms (seq rs) x))"
proof (induction rs arbitrary: x)
  case Nil
  then show ?case by simp
next
  case (Cons a rs)
  have "ms (seq (rs @ qs)) = (\<lambda>y. concat (map (ms (seq qs)) (ms (seq rs) y)))"
    using Cons.IH by blast
  then show ?case by (simp add: concat_map_concat)
qed

lemma ms_seq_cong: "ms (seq qs) = ms (seq qs') \<Longrightarrow> ms (seq (a # qs)) = ms (seq (a # qs'))"
  by (rule ext) simp

lemma ms_seq_rep_cong:
  "ms (seq qs) = ms (seq qs') \<Longrightarrow> ms (seq (rep n r # qs)) = ms (seq (replicate n r @ qs'))"
  by (rule ext) (simp add: rep_def ms_seq_append)

lemma ms_classes_Eol:
  "(ms (seq (map Class ps @ [Eol])) (l, s) \<noteq> []) = list_all2 (\<lambda>p c. p c) ps s"
proof (induction ps arbitrary: l s)
  case Nil
  then show ?case by simp
next
  case (Cons p ps)
  then show ?case by (cases s) simp_all
qed

lemma search_Bol_Some: "search (Seq Bol r) (Some c) s = False"
  by (induction s arbitrary: c) simp_all

lemma test_Bol: "test (Seq Bol r) s = (ms r (None, s) \<noteq> [])"
  by (cases s) (simp_all add: test_def search_Bol_Some)

section \<open>Case folding of the characters of the patterns\<close>

lemma ignoreCase_image: "ignoreCase cls c = (canonicalize c \<in> canonicalize ` set cls)"
  unfolding ignoreCase_def list_ex_iff image_iff by metis

lemma canonicalize_upper:
  "canonicalize c = CHR ''A'' \<longleftrightarrow> c = CHR ''a'' \<or> c = CHR ''A''"
  "canonicalize c = CHR ''B'' \<longleftrightarrow> c = CHR ''b'' \<or> c = CHR ''B''"
  "canonicalize c = CHR ''C'' \<longleftrightarrow> c = CHR ''c'' \<or> c = CHR ''C''"
  "canonicalize c = CHR ''D'' \<longleftrightarrow> c = CHR ''d'' \<or> c = CHR ''D''"
  "canonicalize c = CHR ''E'' \<longleftrightarrow> c = CHR ''e'' \<or> c = CHR ''E''"
  "canonicalize c = CHR ''F'' \<longleftrightarrow> c = CHR ''f'' \<or> c = CHR ''F''"
  by (simp_all add: canonicalize_def lowerLetters_def upperLetters_def)

lemma canonicalize_digit:
  "canonicalize c = CHR ''0'' \<longleftrightarrow> c = CHR ''0''"
  "canonicalize c = CHR ''1'' \<longleftrightarrow> c = CHR ''1''"
  "canonicalize c = CHR ''2'' \<longleftrightarrow> c = CHR ''2''"
  "canonicalize c = CHR ''3'' \<longleftrightarrow> c = CHR ''3''"
  "canonicalize c = CHR ''4'' \<longleftrightarrow> c = CHR ''4''"
  "canonicalize c = CHR ''5'' \<longleftrightarrow> c = CHR ''5''"
  "canonicalize c = CHR ''6'' \<longleftrightarrow> c = CHR ''6''"
  "canonicalize c = CHR ''7'' \<longleftrightarrow> c = CHR ''7''"
  "canonicalize c = CHR ''8'' \<longleftrightarrow> c = CHR ''8''"
  "canonicalize c = CHR ''9'' \<longleftrightarrow> c = CHR ''9''"
  "canonicalize c = CHR ''-'' \<longleftrightarrow> c = CHR ''-''"
  by (simp_all add: canonicalize_def lowerLetters_def upperLetters_def)

lemma canonicalize_hex_image:
  "canonicalize ` set ''0123456789abcdef'' = set ''0123456789ABCDEF''"
  by (simp add: canonicalize_def lowerLetters_def upperLetters_def)

lemma ignoreCase_hex: "ignoreCase ''0123456789abcdef'' c = isHexDigit c"
proof -
  have "ignoreCase ''0123456789abcdef'' c \<longleftrightarrow> canonicalize c \<in> set ''0123456789ABCDEF''"
    unfolding ignoreCase_image canonicalize_hex_image ..
  also have "\<dots> \<longleftrightarrow> isHexDigit c"
    unfolding isHexDigit_def
    apply (simp only: set_simps insert_iff empty_iff canonicalize_upper canonicalize_digit)
    apply argo
    done
  finally show ?thesis .
qed

lemma ignoreCase_dash: "ignoreCase ''-'' c = (c = CHR ''-'')"
  unfolding ignoreCase_image by (simp add: canonicalize_digit) (simp add: canonicalize_def lowerLetters_def upperLetters_def)

section \<open>The identifier validator\<close>

lemma uuid_body_flat:
  "ms (seq [rep 8 hexClass, dash, rep 4 hexClass, dash, rep 4 hexClass, dash,
            rep 4 hexClass, dash, rep 12 hexClass, Eol])
   = ms (seq (map Class (replicate 8 (ignoreCase ''0123456789abcdef'') @ [ignoreCase ''-''] @
                  replicate 4 (ignoreCase ''0123456789abcdef'') @ [ignoreCase ''-''] @
                  replicate 4 (ignoreCase ''0123456789abcdef'') @ [ignoreCase ''-''] @
                  replicate 4 (ignoreCase ''0123456789abcdef'') @ [ignoreCase ''-''] @
                  replicate 12 (ignoreCase ''0123456789abcdef'')) @ [Eol]))"
proof -
  note r = ms_seq_rep_cong and c = ms_seq_cong
  have "ms (seq [rep 8 hexClass, dash, rep 4 hexClass, dash, rep 4 hexClass, dash,
            rep 4 hexClass, dash, rep 12 hexClass, Eol])
    = ms (seq (replicate 8 hexClass @ dash # replicate 4 hexClass @ dash # replicate 4 hexClass @
           dash # replicate 4 hexClass @ dash # replicate 12 hexClass @ [Eol]))"
    by (rule r c refl)+
  then show ?thesis
    by (simp only: hexClass_def dash_def chr_def map_append map_replicate list.map
        append_Cons append_Nil append_assoc)
qed

lemma uuidClasses_nth:
  "i < 36 \<Longrightarrow> (uuidClasses ! i) c = (if i \<in> {8, 13, 18, 23} then c = CHR ''-'' else isHexDigit c)"
  unfolding uuidClasses_def
  by (auto simp: nth_append nth_Cons')

lemma uuidClasses_length: "length uuidClasses = 36"
  by (simp add: uuidClasses_def)

lemma test_uuidRegex_classes: "test uuidRegex s \<longleftrightarrow> list_all2 (\<lambda>p c. p c) uuidClasses s"
proof -
  have h: "ignoreCase ''0123456789abcdef'' = isHexDigit"
    and d: "ignoreCase ''-'' = (\<lambda>c. c = CHR ''-'')"
    by (rule ext, rule ignoreCase_hex) (rule ext, rule ignoreCase_dash)
  show ?thesis
    unfolding uuidRegex_def seq.simps(2)[of Bol] test_Bol uuid_body_flat
      ms_classes_Eol h d uuidClasses_def ..
qed

lemma test_uuidRegex_canonical: "test uuidRegex s \<longleftrightarrow> canonicalUUID s"
  unfolding test_uuidRegex_classes canonicalUUID_def list_all2_conv_all_nth uuidClasses_length
  using uuidClasses_nth by auto

text \<open>
  C7. \<^verbatim>\<open>isValidUUID\<close> (and \<^verbatim>\<open>validateUUID\<close>) is a function of its argument alone that
  accepts exactly the strings in canonical 8-4-4-4-12 hexadecimal form, letters in either
  case. It accepts \<^verbatim>\<open>123e4567-e89b-42d3-a456-426614174000\<close> and rejects \<^verbatim>\<open>not-a-uuid\<close>, the
  empty string, and an upper-case identifier whose first hyphen is missing.
\<close>

theorem isValidUUID_canonical:
  "(\<forall>s. isValidUUID s = canonicalUUID s) \<and> (\<forall>s. validateUUID s = isValidUUID s) \<and>
   isValidUUID ''123e4567-e89b-42d3-a456-426614174000'' \<and>
   \<not> isValidUUID ''not-a-uuid'' \<and>
   \<not> isValidUUID '''' \<and>
   \<not> isValidUUID ''123E4567E89B-42D3-A456-426614174000''"
proof -
  have g: "\<forall>s. isValidUUID s = canonicalUUID s"
    by (simp add: isValidUUID_def test_uuidRegex_canonical)
  have v: "\<forall>s. validateUUID s = isValidUUID s"
    by (simp add: isValidUUID_def validateUUID_def)
  have a: "isValidUUID ''123e4567-e89b-42d3-a456-426614174000''"
    by code_simp
  have b: "\<not> isValidUUID ''not-a-uuid''"
    by code_simp
  have c: "\<not> isValidUUID ''''"
    by code_simp
  have d: "\<not> isValidUUID ''123E4567E89B-42D3-A456-426614174000''"
    by code_simp
  from g v a b c d show ?thesis by blast
qed

theorem isValidUUID_canonical_witness:
  "isValidUUID ''ABCDEF01-2345-6789-abcd-ef0123456789'' \<and>
   canonicalUUID ''ABCDEF01-2345-6789-abcd-ef0123456789'' \<and>
   \<not> canonicalUUID ''123E4567E89B-42D3-A456-426614174000''"
proof -
  have a: "isValidUUID ''ABCDEF01-2345-6789-abcd-ef0123456789''"
    by code_simp
  have d: "\<not> isValidUUID ''123E4567E89B-42D3-A456-426614174000''"
    using isValidUUID_canonical by blast
  from a d isValidUUID_canonical show ?thesis by blast
qed

section \<open>Generated identifiers\<close>

declare toString16.simps [simp del]

lemma toString16_digit: "r < 16 \<Longrightarrow> toString16 r = [''0123456789abcdef'' ! r]"
  by (simp add: toString16.simps)

lemma variant_bits:
  assumes "(r::nat) < 16" shows "(r AND 3) OR 8 \<in> {8, 9, 10, 11}"
proof -
  have "\<forall>r \<in> set [0..<16]. (r AND 3) OR 8 \<in> {8, 9, 10, 11::nat}"
    by code_simp
  with assms show ?thesis by simp
qed

lemma hex_nth:
  assumes "(r::nat) < 16" shows "lowerHex (''0123456789abcdef'' ! r)"
proof -
  have "\<forall>r \<in> set [0..<16]. lowerHex (''0123456789abcdef'' ! r)"
    by code_simp
  with assms show ?thesis by simp
qed

lemma uuidReplacer_x: "r < 16 \<Longrightarrow> uuidReplacer r CHR ''x'' = [''0123456789abcdef'' ! r]"
  by (simp add: uuidReplacer_def toString16_digit)

lemma uuidReplacer_y: "r < 16 \<Longrightarrow> uuidReplacer r CHR ''y'' \<in> {''8'', ''9'', ''a'', ''b''}"
  using variant_bits[of r] by (auto simp: uuidReplacer_def toString16_digit)

lemma generateUUID_unfold:
  "generateUUID rnd = 
     uuidReplacer (rnd 0) CHR ''x'' @ uuidReplacer (rnd 1) CHR ''x'' @ uuidReplacer (rnd 2) CHR ''x'' @
     uuidReplacer (rnd 3) CHR ''x'' @ uuidReplacer (rnd 4) CHR ''x'' @ uuidReplacer (rnd 5) CHR ''x'' @
     uuidReplacer (rnd 6) CHR ''x'' @ uuidReplacer (rnd 7) CHR ''x'' @ ''-'' @
     uuidReplacer (rnd 8) CHR ''x'' @ uuidReplacer (rnd 9) CHR ''x'' @ uuidReplacer (rnd 10) CHR ''x'' @
     uuidReplacer (rnd 11) CHR ''x'' @ ''-4'' @
     uuidReplacer (rnd 12) CHR ''x'' @ uuidReplacer (rnd 13) CHR ''x'' @ uuidReplacer (rnd 14) CHR ''x'' @ ''-'' @
     uuidReplacer (rnd 15) CHR ''y'' @
     uuidReplacer (rnd 16) CHR ''x'' @ uuidReplacer (rnd 17) CHR ''x'' @ uuidReplacer (rnd 18) CHR ''x'' @ ''-'' @
     uuidReplacer (rnd 19) CHR ''x'' @ uuidReplacer (rnd 20) CHR ''x'' @ uuidReplacer (rnd 21) CHR ''x'' @
     uuidReplacer (rnd 22) CHR ''x'' @ uuidReplacer (rnd 23) CHR ''x'' @ uuidReplacer (rnd 24) CHR ''x'' @
     uuidReplacer (rnd 25) CHR ''x'' @ uuidReplacer (rnd 26) CHR ''x'' @ uuidReplacer (rnd 27) CHR ''x'' @
     uuidReplacer (rnd 28) CHR ''x'' @ uuidReplacer (rnd 29) CHR ''x'' @ uuidReplacer (rnd 30) CHR ''x''"
  by (simp add: generateUUID_def eval_nat_numeral)

lemma lowerHex_isHexDigit: "lowerHex c \<Longrightarrow> isHexDigit c"
  by (auto simp: lowerHex_def isHexDigit_def)


lemma uuidClasses_explicit:
  "uuidClasses = [isHexDigit, isHexDigit, isHexDigit, isHexDigit, isHexDigit, isHexDigit, isHexDigit, isHexDigit,
     (\<lambda>c. c = CHR ''-''), isHexDigit, isHexDigit, isHexDigit, isHexDigit,
     (\<lambda>c. c = CHR ''-''), isHexDigit, isHexDigit, isHexDigit, isHexDigit,
     (\<lambda>c. c = CHR ''-''), isHexDigit, isHexDigit, isHexDigit, isHexDigit,
     (\<lambda>c. c = CHR ''-''), isHexDigit, isHexDigit, isHexDigit, isHexDigit, isHexDigit, isHexDigit,
     isHexDigit, isHexDigit, isHexDigit, isHexDigit, isHexDigit, isHexDigit]"
  by (simp add: uuidClasses_def eval_nat_numeral)

lemma generateUUID_classes:
  assumes "\<forall>i < 31. rnd i < 16"
  shows "list_all2 (\<lambda>p c. p c) uuidClasses (generateUUID rnd)"
    and "\<forall>c \<in> set (generateUUID rnd). lowerHex c \<or> c = CHR ''-''"
proof -
  let ?h = "\<lambda>i. ''0123456789abcdef'' ! rnd i"
  obtain v where v: "uuidReplacer (rnd 15) CHR ''y'' = [v]" "v \<in> set ''89ab''"
    using uuidReplacer_y[of "rnd 15"] assms by auto
  have x: "uuidReplacer (rnd i) CHR ''x'' = [?h i]" if "i < 31" for i
    using assms that by (simp add: uuidReplacer_x)
  have l: "lowerHex (?h i)" if "i < 31" for i
    using assms that by (simp add: hex_nth)
  have lv: "lowerHex v" and l4: "lowerHex CHR ''4''"
    using v(2) by (auto simp: lowerHex_def)
  have e: "generateUUID rnd =
      [?h 0, ?h 1, ?h 2, ?h 3, ?h 4, ?h 5, ?h 6, ?h 7, CHR ''-'', ?h 8, ?h 9, ?h 10, ?h 11,
       CHR ''-'', CHR ''4'', ?h 12, ?h 13, ?h 14, CHR ''-'', v, ?h 16, ?h 17, ?h 18, CHR ''-'',
       ?h 19, ?h 20, ?h 21, ?h 22, ?h 23, ?h 24, ?h 25, ?h 26, ?h 27, ?h 28, ?h 29, ?h 30]"
    unfolding generateUUID_unfold by (simp add: x v(1))
  show "list_all2 (\<lambda>p c. p c) uuidClasses (generateUUID rnd)"
    unfolding e uuidClasses_explicit
    by (simp add: l lv l4 lowerHex_isHexDigit)
  show "\<forall>c \<in> set (generateUUID rnd). lowerHex c \<or> c = CHR ''-''"
    unfolding e by (simp add: l lv l4)
qed


text \<open>
  C10. Whatever the random choices are, the string \<^verbatim>\<open>generateUUID\<close> returns passes
  \<^verbatim>\<open>isValidUUID\<close> and \<^verbatim>\<open>validateUUID\<close>, is in canonical 8-4-4-4-12 form, and consists of
  lower-case hexadecimal digits and hyphens only.
\<close>

theorem generateUUID_valid:
  assumes "\<forall>i < 31. rnd i < 16"
  shows "isValidUUID (generateUUID rnd) \<and> validateUUID (generateUUID rnd) \<and>
         canonicalUUID (generateUUID rnd) \<and>
         (\<forall>c \<in> set (generateUUID rnd). lowerHex c \<or> c = CHR ''-'')"
  using generateUUID_classes[OF assms]
  by (simp add: isValidUUID_def validateUUID_def test_uuidRegex_classes
      test_uuidRegex_canonical[symmetric])

theorem generateUUID_valid_witness:
  "generateUUID (\<lambda>i. i mod 16) = ''01234567-89ab-4cde-b012-3456789abcde'' \<and>
   isValidUUID ''01234567-89ab-4cde-b012-3456789abcde''"
proof -
  have h: "\<forall>i < 31. (\<lambda>i. i mod 16) i < (16::nat)"
    by simp
  have e: "generateUUID (\<lambda>i. i mod 16) = ''01234567-89ab-4cde-b012-3456789abcde''"
    by code_simp
  from generateUUID_valid[OF h] e show ?thesis by simp
qed

section \<open>The sanitizer\<close>

lemmas ms_Seq = ms.simps(7)
lemmas ms_Star = ms.simps(8)
declare ms.simps(7) [simp del] ms.simps(8) [simp del]

lemma ms_Seq_fun: "ms (Seq b c) = (\<lambda>y. concat (map (ms c) (ms b y)))"
  by (rule ext) (rule ms_Seq)

lemma ms_Seq_assoc: "ms (Seq (Seq a b) c) x = ms (Seq a (Seq b c)) x"
  unfolding ms_Seq[of a "Seq b c"] ms_Seq_fun[of b c]
  by (simp add: ms_Seq concat_map_concat)

lemma ms_Eps_fun: "ms Eps = (\<lambda>x. [x])"
  by (rule ext) simp

lemma ms_Seq_Eps: "ms (Seq a Eps) x = ms a x"
  unfolding ms_Seq ms_Eps_fun by (induction "ms a x") simp_all

lemma ms_Class_Seq:
  "ms (Seq (Class p) r) (l, s) = (case s of [] \<Rightarrow> [] | c # cs \<Rightarrow> if p c then ms r (Some c, cs) else [])"
  by (cases s) (simp_all add: ms_Seq)

lemma ignoreCase_single: "ignoreCase [a] c = (canonicalize a = canonicalize c)"
  by (simp add: ignoreCase_def)

lemma ciPrefix_Nil: "ciPrefix [] s"
  by (simp add: ciPrefix_def)

lemma ciPrefix_Cons:
  "ciPrefix (a # w) s = (case s of [] \<Rightarrow> False | c # cs \<Rightarrow> canonicalize a = canonicalize c \<and> ciPrefix w cs)"
  by (cases s) (auto simp: ciPrefix_def)

lemma lastOf_Cons: "lastOf l (c # xs) = lastOf (Some c) xs"
  by (simp add: lastOf_def)

lemma ms_lit_Seq:
  "ms (Seq (lit w) r) (l, s) =
     (if ciPrefix w s then ms r (lastOf l (take (length w) s), drop (length w) s) else [])"
proof (induction w arbitrary: l s)
  case Nil
  then show ?case by (simp add: lit_def ciPrefix_Nil lastOf_def ms_Seq)
next
  case (Cons a w)
  have "ms (Seq (lit (a # w)) r) (l, s) = ms (Seq (chr a) (Seq (lit w) r)) (l, s)"
    unfolding lit_def list.map seq.simps by (rule ms_Seq_assoc)
  also have "\<dots> = (case s of [] \<Rightarrow> [] | c # cs \<Rightarrow>
       if canonicalize a = canonicalize c then ms (Seq (lit w) r) (Some c, cs) else [])"
    unfolding chr_def ms_Class_Seq ignoreCase_single ..
  also have "\<dots> = (if ciPrefix (a # w) s
       then ms r (lastOf l (take (length (a # w)) s), drop (length (a # w)) s) else [])"
  proof (cases s)
    case Nil
    then show ?thesis by (simp add: ciPrefix_Cons)
  next
    case (Cons c cs)
    then show ?thesis by (simp add: ciPrefix_Cons Cons.IH lastOf_Cons)
  qed
  finally show ?case .
qed

lemma ms_lit:
  "ms (lit w) (l, s) =
     (if ciPrefix w s then [(lastOf l (take (length w) s), drop (length w) s)] else [])"
  using ms_lit_Seq[of w Eps l s] unfolding ms_Seq_Eps by simp

lemma ms_Star_Class:
  "ms (Star (Class p)) (l, s) =
     (case s of [] \<Rightarrow> [] | c # cs \<Rightarrow> if p c then ms (Star (Class p)) (Some c, cs) else []) @ [(l, s)]"
  by (cases s) (simp_all add: ms_Star)

lemma ms_Star_Class_Seq:
  assumes "\<And>l' c cs. p c \<Longrightarrow> ms r (l', c # cs) = []"
  shows "ms (Seq (Star (Class p)) r) (l, s) = ms r (lastOf l (takeWhile p s), dropWhile p s)"
proof (induction s arbitrary: l)
  case Nil
  then show ?case by (simp add: ms_Seq ms_Star_Class lastOf_def)
next
  case (Cons c cs)
  have e: "ms (Seq (Star (Class p)) r) (l, c # cs) =
      (if p c then ms (Seq (Star (Class p)) r) (Some c, cs) else []) @ ms r (l, c # cs)"
    by (subst ms_Seq, subst ms_Star_Class) (simp add: ms_Seq)
  show ?case
  proof (cases "p c")
    case True
    then show ?thesis unfolding e using assms[of c l cs] by (simp add: Cons.IH lastOf_Cons)
  next
    case False
    then show ?thesis unfolding e by (simp add: lastOf_def)
  qed
qed

lemma removeMatches_skip: "removeMatches m k s = removeMatches m 0 (drop k s)"
proof (induction s arbitrary: k)
  case Nil
  then show ?case by simp
next
  case (Cons c cs)
  then show ?case by (cases k) simp_all
qed

lemma replaceAll_removeMatches:
  assumes a: "\<And>l s. map snd (ms r (l, s)) = (case m s of None \<Rightarrow> [] | Some n \<Rightarrow> [drop n s])"
  shows "replaceAll r [] l s = removeMatches m 0 s"
proof (induction s arbitrary: l rule: length_induct)
  case (1 s)
  show ?case
  proof (cases s)
    case Nil
    then show ?thesis by simp
  next
    case (Cons c cs)
    show ?thesis
    proof (cases "m (c # cs)")
      case None
      then have "ms r (l, c # cs) = []" using a[of l "c # cs"] by simp
      then show ?thesis using None Cons 1 by simp
    next
      case (Some n)
      then obtain l' where e: "ms r (l, c # cs) = [(l', drop n (c # cs))]"
        using a[of l "c # cs"] by (cases "ms r (l, c # cs)") auto
      show ?thesis
      proof (cases n)
        case 0
        then show ?thesis using e Some Cons 1 by simp
      next
        case (Suc k)
        have "replaceAll r [] l' (drop k cs) = removeMatches m 0 (drop k cs)"
          using 1 Cons by simp
        then show ?thesis using e Some Cons Suc removeMatches_skip[of m k cs] by simp
      qed
    qed
  qed
qed

lemma canonicalize_punct:
  "canonicalize c = CHR ''='' \<longleftrightarrow> c = CHR ''=''"
  "canonicalize c = CHR ''<'' \<longleftrightarrow> c = CHR ''<''"
  "CHR ''='' = canonicalize c \<longleftrightarrow> c = CHR ''=''"
  "CHR ''<'' = canonicalize c \<longleftrightarrow> c = CHR ''<''"
  "canonicalize CHR ''='' = CHR ''=''"
  "canonicalize CHR ''<'' = CHR ''<''"
  by (auto simp add: canonicalize_def lowerLetters_def upperLetters_def)

lemma ms_lit_Seq_n:
  "length w = n \<Longrightarrow> ms (Seq (lit w) r) (l, s) =
     (if ciPrefix w s then ms r (lastOf l (take n s), drop n s) else [])"
  using ms_lit_Seq by blast

lemma ms_lit_n:
  "length w = n \<Longrightarrow> ms (lit w) (l, s) =
     (if ciPrefix w s then [(lastOf l (take n s), drop n s)] else [])"
  using ms_lit by blast

lemma javascript_match:
  "map snd (ms javascriptRegex (l, s)) = (case javascriptAt s of None \<Rightarrow> [] | Some n \<Rightarrow> [drop n s])"
  by (simp add: javascriptRegex_def ms_lit_n[of _ 11] javascriptAt_def)

lemma wordChar_not_space: "isWordChar c \<Longrightarrow> \<not> isWhiteSpace c"
  unfolding isWordChar_def isWhiteSpace_def wordChars_def whiteSpaceChars_def by auto

lemma wordChar_not_eq: "isWordChar c \<Longrightarrow> c \<noteq> CHR ''=''"
  unfolding isWordChar_def wordChars_def by auto

lemma space_not_eq: "isWhiteSpace c \<Longrightarrow> c \<noteq> CHR ''=''"
  unfolding isWhiteSpace_def whiteSpaceChars_def by auto

lemma ms_eq_sign:
  "ms (Seq (chr CHR ''='') Eps) (l, s) =
     (case s of [] \<Rightarrow> [] | c # cs \<Rightarrow> if c = CHR ''='' then [(Some c, cs)] else [])"
  unfolding ms_Seq_Eps chr_def by (cases s) (auto simp: ignoreCase_single canonicalize_punct)


lemma canonicalize_cases:
  obtains "canonicalize c = c"
  | "c \<in> set lowerLetters" "canonicalize c \<in> set upperLetters"
proof (cases "map_of (zip lowerLetters upperLetters) c")
  case None
  then show ?thesis using that(1) by (simp add: canonicalize_def)
next
  case (Some u)
  then have "(c, u) \<in> set (zip lowerLetters upperLetters)"
    by (rule map_of_SomeD)
  then have "c \<in> set lowerLetters" "u \<in> set upperLetters"
    by (rule set_zip_leftD, rule set_zip_rightD)
  then show ?thesis using that(2) Some by (simp add: canonicalize_def)
qed

lemma letters_word: "set lowerLetters \<subseteq> set wordChars" "set upperLetters \<subseteq> set wordChars"
  by code_simp+

lemma letters_not_space:
  "set lowerLetters \<inter> set whiteSpaceChars = {}" "set upperLetters \<inter> set whiteSpaceChars = {}"
  by code_simp+

lemma isWordChar_canonicalize: "isWordChar (canonicalize c) = isWordChar c"
proof (cases c rule: canonicalize_cases)
  case 1
  then show ?thesis by simp
next
  case 2
  then have "isWordChar c" "isWordChar (canonicalize c)"
    unfolding isWordChar_def using letters_word by blast+
  then show ?thesis by simp
qed

lemma isWhiteSpace_canonicalize: "isWhiteSpace (canonicalize c) = isWhiteSpace c"
proof (cases c rule: canonicalize_cases)
  case 1
  then show ?thesis by simp
next
  case 2
  then have "\<not> isWhiteSpace c" "\<not> isWhiteSpace (canonicalize c)"
    unfolding isWhiteSpace_def using letters_not_space by blast+
  then show ?thesis by simp
qed

lemma ignoreCase_wordChars: "ignoreCase wordChars = isWordChar"
proof (rule ext)
  fix c
  show "ignoreCase wordChars c = isWordChar c"
    unfolding ignoreCase_def list_ex_iff
    by (metis isWordChar_canonicalize isWordChar_def)
qed

lemma ignoreCase_whiteSpaceChars: "ignoreCase whiteSpaceChars = isWhiteSpace"
proof (rule ext)
  fix c
  show "ignoreCase whiteSpaceChars c = isWhiteSpace c"
    unfolding ignoreCase_def list_ex_iff
    by (metis isWhiteSpace_canonicalize isWhiteSpace_def)
qed

lemma handler_tail:
  "ms (Seq (Star (Class isWhiteSpace)) (Seq (chr CHR ''='') Eps)) (l, s) =
     (case dropWhile isWhiteSpace s of [] \<Rightarrow> []
      | c # cs \<Rightarrow> if c = CHR ''='' then [(Some c, cs)] else [])"
  by (subst ms_Star_Class_Seq) (simp_all add: ms_eq_sign space_not_eq)

lemma handler_tail_word:
  "isWordChar c \<Longrightarrow> ms (Seq (Star (Class isWhiteSpace)) (Seq (chr CHR ''='') Eps)) (l, c # cs) = []"
  by (simp add: handler_tail wordChar_not_space wordChar_not_eq)

lemma handler_name:
  "ms (Seq (plus (Class isWordChar)) (Seq (Star (Class isWhiteSpace)) (Seq (chr CHR ''='') Eps))) (l, s) =
     (if takeWhile isWordChar s = [] then []
      else case dropWhile isWhiteSpace (dropWhile isWordChar s) of [] \<Rightarrow> []
      | c # cs \<Rightarrow> if c = CHR ''='' then [(Some c, cs)] else [])"
  unfolding plus_def ms_Seq_assoc ms_Class_Seq
  by (cases s) (simp_all add: ms_Star_Class_Seq[where p = isWordChar, OF handler_tail_word] handler_tail)

lemma handler_match:
  "map snd (ms handlerRegex (l, s)) = (case handlerAt s of None \<Rightarrow> [] | Some n \<Rightarrow> [drop n s])"
proof -
  let ?t = "drop 2 s"
  let ?t' = "dropWhile isWordChar ?t"
  let ?t'' = "dropWhile isWhiteSpace ?t'"
  let ?n = "2 + length (takeWhile isWordChar ?t) + length (takeWhile isWhiteSpace ?t') + 1"
  let ?ok = "ciPrefix ''on'' s \<and> takeWhile isWordChar ?t \<noteq> [] \<and> take 1 ?t'' = ''=''"
  have d1: "drop (2 + length (takeWhile isWordChar ?t)) s = ?t'"
    by (simp add: dropWhile_eq_drop add.commute)
  have d2: "drop (2 + length (takeWhile isWordChar ?t) + length (takeWhile isWhiteSpace ?t')) s = ?t''"
    using d1 by (metis add.commute drop_drop dropWhile_eq_drop)
  have d3: "drop ?n s = drop 1 ?t''"
    using d2 by (metis add.commute drop_drop)
  have h: "handlerAt s = (if ?ok then Some ?n else None)"
    unfolding handlerAt_def Let_def d1 d2 ..
  have m: "ms handlerRegex (l, s) =
     (if ciPrefix ''on'' s then
        (if takeWhile isWordChar ?t = [] then []
         else case ?t'' of [] \<Rightarrow> [] | c # cs \<Rightarrow> if c = CHR ''='' then [(Some c, cs)] else [])
      else [])"
    unfolding handlerRegex_def seq.simps ignoreCase_wordChars ignoreCase_whiteSpaceChars
    by (simp add: ms_lit_Seq_n[of _ 2] handler_name)
  show ?thesis
  proof (cases ?ok)
    case True
    then obtain cs where c: "?t'' = CHR ''='' # cs"
      by (cases ?t'') auto
    have "map snd (ms handlerRegex (l, s)) = [cs]"
      unfolding m c using True by simp
    moreover have "drop ?n s = cs"
      unfolding d3 c by simp
    ultimately show ?thesis unfolding h using True by simp
  next
    case False
    then have "ms handlerRegex (l, s) = []"
      unfolding m by (auto split: list.splits)
    then show ?thesis unfolding h using False by simp
  qed
qed

lemma ignoreCase_lt: "ignoreCase ''<'' c = (c = CHR ''<'')"
  by (auto simp: ignoreCase_single canonicalize_punct)

lemma notLt_eq: "notLt = Class isNotLt"
  unfolding notLt_def isNotLt_def ignoreCase_lt ..

lemma ciPrefix_close_lt: "ciPrefix ''</script>'' (c # cs) \<Longrightarrow> c = CHR ''<''"
  by (simp add: ciPrefix_Cons canonicalize_punct)

lemma ms_closeTag:
  "ms closeTag (l, s) =
     (if ciPrefix ''</script>'' s then [(lastOf l (take 9 s), drop 9 s)] else [])"
  by (simp add: ms_lit_Seq_n[of _ 9])

lemma ms_innerGroup:
  "ms innerGroup (l, s) =
     (if ciPrefix ''</script>'' s then []
      else case s of [] \<Rightarrow> [] | c # cs \<Rightarrow> if c = CHR ''<'' then ms (Star (Class isNotLt)) (Some c, cs) else [])"
proof -
  have c: "ms (lit ''</script>'') (l, s) =
      (if ciPrefix ''</script>'' s then [(lastOf l (take 9 s), drop 9 s)] else [])"
    by (simp add: ms_lit_n[of _ 9])
  show ?thesis
    unfolding ms_Seq[of "NotAhead (lit ''</script>'')"] ms.simps(9) c
    by (cases s) (simp_all add: chr_def ms_Class_Seq ms_Seq_Eps ignoreCase_lt)
qed

lemma ms_Star_Seq:
  "ms (Seq (Star g) c) x =
     concat (map (\<lambda>y. if length (snd y) < length (snd x) then ms (Seq (Star g) c) y else []) (ms g x))
     @ ms c x"
proof -
  have "concat (map (ms c) (concat (map (\<lambda>y. if length (snd y) < length (snd x) then ms (Star g) y else []) ys)))
      = concat (map (\<lambda>y. if length (snd y) < length (snd x) then ms (Seq (Star g) c) y else []) ys)" for ys
    by (induction ys) (simp_all add: ms_Seq)
  then show ?thesis
    by (subst ms_Seq, subst ms_Star) simp
qed

lemma ms_Star_Class_length:
  "y \<in> set (ms (Star (Class p)) (l, s)) \<Longrightarrow> length (snd y) \<le> length s"
proof (induction s arbitrary: l)
  case Nil
  then show ?case by (simp add: ms_Star_Class)
next
  case (Cons c cs)
  then show ?case by (subst (asm) ms_Star_Class) (fastforce split: if_splits)
qed

lemma blockTail_fail: "isNotLt c \<Longrightarrow> ms blockTail (l, c # cs) = []"
  by (subst ms_Star_Seq) (auto simp: ms_innerGroup ms_closeTag isNotLt_def dest: ciPrefix_close_lt)

lemma blockTail_Nil: "ms blockTail (l, []) = []"
  by (subst ms_Star_Seq) (simp add: ms_innerGroup ms_closeTag ciPrefix_Cons)

lemma skip_blockTail:
  "ms (Seq (Star (Class isNotLt)) blockTail) (l, s) =
     ms blockTail (lastOf l (takeWhile isNotLt s), dropWhile isNotLt s)"
  by (rule ms_Star_Class_Seq) (rule blockTail_fail)

lemma closeIndex_skip:
  "closeIndex s =
     map_option (\<lambda>n. n + length (takeWhile isNotLt s)) (closeIndex (dropWhile isNotLt s))"
proof (induction s)
  case Nil
  then show ?case by simp
next
  case (Cons c cs)
  show ?case
  proof (cases "isNotLt c")
    case True
    then have "\<not> ciPrefix ''</script>'' (c # cs)"
      using ciPrefix_close_lt by (auto simp: isNotLt_def)
    then show ?thesis using True Cons by (simp add: option.map_comp comp_def)
  next
    case False
    then show ?thesis by (simp add: option.map_ident)
  qed
qed

lemma blockTail_match:
  "map snd (ms blockTail (l, dropWhile isNotLt s)) =
     (case closeIndex s of None \<Rightarrow> [] | Some n \<Rightarrow> [drop (n + 9) s])"
proof (induction s arbitrary: l rule: length_induct)
  case (1 s)
  let ?k = "length (takeWhile isNotLt s)"
  let ?s' = "dropWhile isNotLt s"
  have ci: "closeIndex s = map_option (\<lambda>n. n + ?k) (closeIndex ?s')"
    by (rule closeIndex_skip)
  have dr: "drop (n + ?k) s = drop n ?s'" for n
    by (simp add: dropWhile_eq_drop add.commute)
  show ?case
  proof (cases ?s')
    case Nil
    have "closeIndex s = None"
      unfolding ci Nil by simp
    then show ?thesis unfolding Nil by (simp add: blockTail_Nil)
  next
    case (Cons c cs)
    then have c: "c = CHR ''<''"
      using hd_dropWhile[of isNotLt s] by (simp add: isNotLt_def)
    have len: "length cs < length s"
      using Cons length_dropWhile_le[of isNotLt s] by simp
    show ?thesis
    proof (cases "ciPrefix ''</script>'' ?s'")
      case True
      then have "ms blockTail (l, ?s') = [(lastOf l (take 9 ?s'), drop 9 ?s')]"
        by (subst ms_Star_Seq) (simp add: ms_innerGroup ms_closeTag)
      moreover have "closeIndex s = Some ?k"
        using True Cons ci by simp
      moreover have "drop (?k + 9) s = drop 9 ?s'"
        using dr[of 9] by (simp add: add.commute)
      ultimately show ?thesis by simp
    next
      case False
      let ?ys = "ms (Star (Class isNotLt)) (Some c, cs)"
      have "ms blockTail (l, ?s') =
          concat (map (\<lambda>y. if length (snd y) < length (snd (l, ?s')) then ms blockTail y else []) ?ys)"
        using False Cons c by (subst ms_Star_Seq) (simp add: ms_innerGroup ms_closeTag)
      also have "\<dots> = concat (map (ms blockTail) ?ys)"
      proof -
        have "\<And>y. y \<in> set ?ys \<Longrightarrow> length (snd y) < length (snd (l, ?s'))"
          using ms_Star_Class_length[of _ isNotLt "Some c" cs] Cons by fastforce
        then have "map (\<lambda>y. if length (snd y) < length (snd (l, ?s')) then ms blockTail y else []) ?ys
            = map (ms blockTail) ?ys"
          by (intro map_cong) simp_all
        then show ?thesis by (simp only:)
      qed
      also have "\<dots> = ms (Seq (Star (Class isNotLt)) blockTail) (Some c, cs)"
        by (simp add: ms_Seq)
      also have "\<dots> = ms blockTail (lastOf (Some c) (takeWhile isNotLt cs), dropWhile isNotLt cs)"
        by (rule skip_blockTail)
      finally have "map snd (ms blockTail (l, ?s')) =
          (case closeIndex cs of None \<Rightarrow> [] | Some n \<Rightarrow> [drop (n + 9) cs])"
        using 1 len by simp
      moreover have "closeIndex ?s' = map_option Suc (closeIndex cs)"
        using False Cons by simp
      moreover have "drop (Suc n + ?k + 9) s = drop (n + 9) cs" for n
      proof -
        have "Suc n + ?k + 9 = Suc (n + 9) + ?k"
          by simp
        then have "drop (Suc n + ?k + 9) s = drop (Suc (n + 9)) ?s'"
          using dr[of "Suc (n + 9)"] by (simp only:)
        also have "\<dots> = drop (n + 9) cs"
          unfolding Cons by (rule drop_Suc_Cons)
        finally show ?thesis .
      qed
      ultimately show ?thesis using ci by (cases "closeIndex cs") simp_all
    qed
  qed
qed

lemma script_last_word:
  assumes "ciPrefix ''<script'' s"
  shows "\<exists>c. lastOf l (take 7 s) = Some c \<and> isWordChar c"
proof -
  obtain c1 c2 c3 c4 c5 c6 c7 r where s: "s = c1 # c2 # c3 # c4 # c5 # c6 # c7 # r"
      and t: "canonicalize CHR ''t'' = canonicalize c7"
    using assms by (auto simp: ciPrefix_Cons split: list.splits)
  have "isWordChar (canonicalize CHR ''t'')"
    unfolding isWordChar_canonicalize by (simp add: isWordChar_def wordChars_def)
  then have "isWordChar c7"
    unfolding t isWordChar_canonicalize .
  then show ?thesis using s by (simp add: lastOf_def)
qed

lemma script_match:
  "map snd (ms scriptRegex (l, s)) = (case scriptBlockAt s of None \<Rightarrow> [] | Some n \<Rightarrow> [drop n s])"
proof -
  let ?t = "drop 7 s"
  let ?w = "case ?t of [] \<Rightarrow> False | c # _ \<Rightarrow> isWordChar c"
  have r: "scriptRegex = Seq (lit ''<script'') (Seq WordBoundary (Seq (Star (Class isNotLt)) blockTail))"
    unfolding scriptRegex_def seq.simps notLt_eq ..
  show ?thesis
  proof (cases "ciPrefix ''<script'' s")
    case False
    then show ?thesis
      unfolding r by (simp add: ms_lit_Seq_n[of _ 7] scriptBlockAt_def)
  next
    case True
    then obtain c where c: "lastOf l (take 7 s) = Some c" "isWordChar c"
      using script_last_word by blast
    have m: "ms scriptRegex (l, s) =
        (if ?w then [] else ms (Seq (Star (Class isNotLt)) blockTail) (Some c, ?t))"
      unfolding r using True c by (simp add: ms_lit_Seq_n[of _ 7] ms_Seq[of WordBoundary])
    show ?thesis
    proof (cases ?w)
      case True
      then show ?thesis unfolding m by (simp add: scriptBlockAt_def)
    next
      case False
      have "map snd (ms scriptRegex (l, s)) =
          (case closeIndex ?t of None \<Rightarrow> [] | Some n \<Rightarrow> [drop (n + 9) ?t])"
        using False by (simp add: m skip_blockTail blockTail_match)
      moreover have "scriptBlockAt s = map_option (\<lambda>n. 7 + n + 9) (closeIndex ?t)"
        using \<open>ciPrefix ''<script'' s\<close> False by (simp add: scriptBlockAt_def)
      ultimately show ?thesis
        by (cases "closeIndex ?t") (simp_all add: add.commute add.left_commute)
    qed
  qed
qed

lemma sanitizeInput_refines: "sanitizeInput s = sanitizeSpec s"
  unfolding sanitizeInput_def sanitizeSpec_def replace_def
  by (simp add: replaceAll_removeMatches[of _ _ None, OF script_match]
      replaceAll_removeMatches[of _ _ None, OF javascript_match]
      replaceAll_removeMatches[of _ _ None, OF handler_match])

lemma removeMatches_plain: "\<not> anywhere m s \<Longrightarrow> removeMatches m 0 s = s"
  by (induction s) simp_all


text \<open>
  C8 as stated fails: the specification gives the event-handler pattern as \<^verbatim>\<open>on\w+=\<close>, but
  the code removes \<^verbatim>\<open>on\w+\s*=\<close>. The text \<^verbatim>\<open>lessons = 3\<close> contains no script block, no
  \<^verbatim>\<open>javascript:\<close> and no match of \<^verbatim>\<open>on\w+=\<close>, has no surrounding white space, and is still
  changed, to \<^verbatim>\<open>less 3\<close>.
\<close>

theorem sanitizeInput_plain_counterexample:
  "\<not> anywhere scriptBlockAt ''lessons = 3'' \<and> \<not> anywhere javascriptAt ''lessons = 3'' \<and>
   \<not> anywhere handlerNoGapAt ''lessons = 3'' \<and> trim ''lessons = 3'' = ''lessons = 3'' \<and>
   sanitizeInput ''lessons = 3'' = ''less 3''"
  by code_simp

text \<open>
  C8, amended. \<^verbatim>\<open>sanitizeInput\<close> removes, in this order, the script blocks (tag name in any
  case), the occurrences of \<^verbatim>\<open>javascript:\<close> and the event handlers \<^verbatim>\<open>on\w+\s*=\<close> (white
  space allowed before \<^verbatim>\<open>=\<close>), each in one scan from the left, and trims the result. It
  maps \<^verbatim>\<open><script>alert(1)</script>hello\<close> to \<^verbatim>\<open>hello\<close>, removes \<^verbatim>\<open>javascript:\<close> from
  \<^verbatim>\<open><a href='javascript:evil()'>x</a>\<close>, and returns a text without any of the three
  patterns unchanged apart from trimming.
\<close>

theorem sanitizeInput_spec:
  "(\<forall>s. sanitizeInput s =
      trim (removeMatches handlerAt 0 (removeMatches javascriptAt 0 (removeMatches scriptBlockAt 0 s)))) \<and>
   sanitizeInput ''<script>alert(1)</script>hello'' = ''hello'' \<and>
   sanitizeInput ''<SCRIPT type=x>alert(1)</ScRiPt>hello'' = ''hello'' \<and>
   sanitizeInput ''<a href='javascript:evil()'>x</a>'' = ''<a href='evil()'>x</a>'' \<and>
   sanitizeInput ''<b onclick=go()>x</b>'' = ''<b go()>x</b>'' \<and>
   (\<forall>s. \<not> anywhere scriptBlockAt s \<and> \<not> anywhere javascriptAt s \<and> \<not> anywhere handlerAt s
      \<longrightarrow> sanitizeInput s = trim s)"
proof -
  have r: "\<forall>s. sanitizeInput s =
      trim (removeMatches handlerAt 0 (removeMatches javascriptAt 0 (removeMatches scriptBlockAt 0 s)))"
    by (simp add: sanitizeInput_refines sanitizeSpec_def)
  have a: "sanitizeInput ''<script>alert(1)</script>hello'' = ''hello''"
    by code_simp
  have b: "sanitizeInput ''<SCRIPT type=x>alert(1)</ScRiPt>hello'' = ''hello''"
    by code_simp
  have c: "sanitizeInput ''<a href='javascript:evil()'>x</a>'' = ''<a href='evil()'>x</a>''"
    by code_simp
  have d: "sanitizeInput ''<b onclick=go()>x</b>'' = ''<b go()>x</b>''"
    by code_simp
  have e: "\<forall>s. \<not> anywhere scriptBlockAt s \<and> \<not> anywhere javascriptAt s \<and> \<not> anywhere handlerAt s
      \<longrightarrow> sanitizeInput s = trim s"
    by (simp add: sanitizeInput_refines sanitizeSpec_def removeMatches_plain)
  from r a b c d e show ?thesis by blast
qed

theorem sanitizeInput_spec_witness:
  "\<not> anywhere scriptBlockAt ''  Solve 2 + 2 on paper  '' \<and>
   \<not> anywhere javascriptAt ''  Solve 2 + 2 on paper  '' \<and>
   \<not> anywhere handlerAt ''  Solve 2 + 2 on paper  '' \<and>
   sanitizeInput ''  Solve 2 + 2 on paper  '' = ''Solve 2 + 2 on paper'' \<and>
   trim ''  Solve 2 + 2 on paper  '' = ''Solve 2 + 2 on paper''"
proof -
  have p: "\<not> anywhere scriptBlockAt ''  Solve 2 + 2 on paper  '' \<and>
      \<not> anywhere javascriptAt ''  Solve 2 + 2 on paper  '' \<and>
      \<not> anywhere handlerAt ''  Solve 2 + 2 on paper  ''"
    by code_simp
  have t: "trim ''  Solve 2 + 2 on paper  '' = ''Solve 2 + 2 on paper''"
    by code_simp
  from sanitizeInput_spec p t show ?thesis by metis
qed

section \<open>The client hook and the remote handler\<close>

declare poll.simps [simp del]

lemma isValidUUID_length: "isValidUUID s \<Longrightarrow> length s = 36"
  by (simp add: isValidUUID_def test_uuidRegex_canonical canonicalUUID_def)

lemma isValidUUID_truthy: "isValidUUID s \<Longrightarrow> truthy (Some s) \<and> orDefault (Some s) [] = s"
  using isValidUUID_length[of s] by (auto simp: truthy_def orDefault_def)

lemma poll_pending_step:
  assumes "isValidUUID pid" "nonTerminal env n"
  shows "poll ctx env pid n =
     pendingAttempt ctx env pid n @ (if n + 1 < 60 then poll ctx env pid (n + 1) else [])"
  using assms
  by (subst poll.simps)
     (auto simp: nonTerminal_def pendingAttempt_def maxAttempts_def split: FetchResult.splits option.splits)

lemma poll_pending_trace:
  assumes v: "isValidUUID pid" and p: "\<forall>n < 60. nonTerminal env n" and a: "a < 60"
  shows "poll ctx env pid a = concat (map (pendingAttempt ctx env pid) [a..<60])"
  using a
proof (induction "59 - a" arbitrary: a)
  case 0
  then have "a = 59" by simp
  then show ?case using poll_pending_step[OF v, of env 59 ctx] p by (simp add: upt_rec_numeral)
next
  case (Suc k)
  then have lt: "a + 1 < 60" and k: "k = 59 - (a + 1)" by simp_all
  have "poll ctx env pid a = pendingAttempt ctx env pid a @ poll ctx env pid (a + 1)"
    using poll_pending_step[OF v, of env a ctx] p Suc.prems lt by simp
  also have "poll ctx env pid (a + 1) = concat (map (pendingAttempt ctx env pid) [a + 1..<60])"
    using Suc.hyps(1)[OF k] lt by simp
  finally show ?case using Suc.prems by (simp add: upt_conv_Cons)
qed

lemma pendingAttempt_queries:
  "nonTerminal env n \<Longrightarrow> length (filter isQuery (pendingAttempt ctx env pid n)) = 1"
  by (auto simp: pendingAttempt_def nonTerminal_def split: FetchResult.splits option.splits)

lemma pendingAttempt_delays:
  "nonTerminal env n \<Longrightarrow> delays (pendingAttempt ctx env pid n) = (if n + 1 < 60 then [2000] else [])"
  by (auto simp: pendingAttempt_def nonTerminal_def split: FetchResult.splits option.splits)

lemma delays_append: "delays (xs @ ys) = delays xs @ delays ys"
  by (induction xs rule: delays.induct) simp_all

lemma pending_queries_count:
  assumes "\<forall>n < 60. nonTerminal env n" "a \<le> 60"
  shows "length (filter isQuery (concat (map (pendingAttempt ctx env pid) [a..<60]))) = 60 - a"
  using assms(2)
proof (induction "60 - a" arbitrary: a)
  case 0
  then show ?case by simp
next
  case (Suc k)
  then have "a < 60" "k = 60 - Suc a" "Suc a \<le> 60" by simp_all
  then show ?case
    using Suc.hyps(1)[of "Suc a"] assms(1) pendingAttempt_queries[of env a ctx pid]
    by (simp add: upt_conv_Cons)
qed

lemma pending_delays:
  assumes "\<forall>n < 60. nonTerminal env n" "a \<le> 60"
  shows "delays (concat (map (pendingAttempt ctx env pid) [a..<60])) = replicate (59 - a) 2000"
  using assms(2)
proof (induction "60 - a" arbitrary: a)
  case 0
  then show ?case by simp
next
  case (Suc k)
  then have a: "a < 60" "k = 60 - Suc a" "Suc a \<le> 60" by simp_all
  show ?case
  proof (cases "a = 59")
    case True
    then show ?thesis
      using assms(1) pendingAttempt_delays[of env 59 ctx pid] by (simp add: upt_rec_numeral delays_append)
  next
    case False
    then have "59 - a = Suc (59 - Suc a)" using a by simp
    then show ?thesis
      using Suc.hyps(1)[of "Suc a"] a assms(1) pendingAttempt_delays[of env a ctx pid] False
      by (simp add: upt_conv_Cons delays_append)
  qed
qed

lemma pending_last:
  "last (concat (map (pendingAttempt ctx env pid) [0..<60])) =
     SetError (Some ''Problem processing timed out. Please try again.'')"
proof -
  have "[0..<Suc 59] = [0..<59] @ [59]"
    by (rule upt_Suc_append) simp
  moreover have "(60::nat) = Suc 59"
    by simp
  ultimately have "[0..<60] = [0..<59] @ [59]"
    by (simp only:)
  then show ?thesis
    by (simp add: pendingAttempt_def)
qed

text \<open>
  C1. If the identifier is well formed, no query fails and no fetched row has a terminal
  status, the polling loop is the timer of 1000 ms followed by 60 attempts, each but the last
  followed by a timer of 2000 ms and the last by the timeout message: it issues exactly 60
  status queries, its timers are 1000 ms and then 59 times 2000 ms, and it ends by setting the
  timeout message.
\<close>

theorem pollForCompletion_timeout:
  assumes "isValidUUID pid"
    and "\<forall>n < 60. \<exists>data. fetchAt env n = FetchData (Some data) \<and>
           row_status data \<noteq> ''completed'' \<and> row_status data \<noteq> ''error''"
  shows "pollForCompletion ctx env pid =
           SetTimeout 1000 # concat (map (pendingAttempt ctx env pid) [0..<60]) \<and>
         length (filter isQuery (pollForCompletion ctx env pid)) = 60 \<and>
         delays (pollForCompletion ctx env pid) = 1000 # replicate 59 2000 \<and>
         last (pollForCompletion ctx env pid) =
           SetError (Some ''Problem processing timed out. Please try again.'')"
proof -
  have p: "\<forall>n < 60. nonTerminal env n"
    using assms(2) by (fastforce simp: nonTerminal_def)
  have t: "pollForCompletion ctx env pid =
      SetTimeout 1000 # concat (map (pendingAttempt ctx env pid) [0..<60])"
    unfolding pollForCompletion_def using poll_pending_trace[OF assms(1) p, of 0 ctx] by simp
  have n: "concat (map (pendingAttempt ctx env pid) [0..<60]) \<noteq> []"
    by (simp add: pendingAttempt_def) (rule exI[of _ 0], simp)
  show ?thesis
    unfolding t using pending_queries_count[OF p, of 0 ctx pid] pending_delays[OF p, of 0 ctx pid]
      pending_last[of ctx env pid] n
    by simp
qed

theorem pollForCompletion_timeout_witness:
  "isValidUUID ''123e4567-e89b-42d3-a456-426614174000'' \<and>
   fetchAt pendingWorld 59 = FetchData (Some pendingRow) \<and>
   row_status pendingRow = ''processing'' \<and>
   length (filter isQuery
     (pollForCompletion guestContext pendingWorld ''123e4567-e89b-42d3-a456-426614174000'')) = 60 \<and>
   last (pollForCompletion guestContext pendingWorld ''123e4567-e89b-42d3-a456-426614174000'') =
     SetError (Some ''Problem processing timed out. Please try again.'')"
proof -
  have v: "isValidUUID ''123e4567-e89b-42d3-a456-426614174000''"
    by code_simp
  have p: "\<forall>n < 60. \<exists>data. fetchAt pendingWorld n = FetchData (Some data) \<and>
           row_status data \<noteq> ''completed'' \<and> row_status data \<noteq> ''error''"
    by (simp add: pendingWorld_def pendingRow_def)
  have f: "fetchAt pendingWorld 59 = FetchData (Some pendingRow)"
    "row_status pendingRow = ''processing''"
    by (simp_all add: pendingWorld_def pendingRow_def)
  from pollForCompletion_timeout[OF v p, of guestContext] v f show ?thesis by blast
qed

lemma rowErrorMessage_derived:
  "row_status data = ''error'' \<Longrightarrow> rowErrorMessage data = Some (derivedErrorText data)"
  by (auto simp: rowErrorMessage_def derivedErrorText_def orElse_def orDefault_def truthy_def
      split: option.splits)

lemma derivedErrorText_nonempty: "derivedErrorText data \<noteq> []"
  by (auto simp: derivedErrorText_def Let_def orDefault_def truthy_def split: option.splits if_splits)

text \<open>
  C5. A polling attempt that fetches a row with status \<^verbatim>\<open>error\<close> sets the result, sets the
  error to the derived error text of the row (\<^verbatim>\<open>ai_response.error\<close>, else
  \<^verbatim>\<open>ai_response.message\<close>, else \<^verbatim>\<open>error_message\<close>, else the fixed fallback) and schedules no
  further attempt.
\<close>

theorem poll_error_row:
  assumes "isValidUUID pid" and "fetchAt env n = FetchData (Some data)"
    and "row_status data = ''error''"
  shows "poll ctx env pid n =
           [GetSession, Query pid (userFilter ctx (sessionAt env n)),
            SetResult (Some (newResult data)), SetError (Some (derivedErrorText data))] \<and>
         delays (poll ctx env pid n) = [] \<and>
         errorMessage (newResult data) = Some (derivedErrorText data)"
proof -
  have "orElse (Some (derivedErrorText data)) (Some ''Problem processing failed'')
      = Some (derivedErrorText data)"
    using derivedErrorText_nonempty[of data] by (simp add: orElse_def truthy_def)
  then have "poll ctx env pid n =
           [GetSession, Query pid (userFilter ctx (sessionAt env n)),
            SetResult (Some (newResult data)), SetError (Some (derivedErrorText data))]"
    using assms by (subst poll.simps) (simp add: rowErrorMessage_derived)
  then show ?thesis
    using assms(3) by (simp add: newResult_def rowErrorMessage_derived)
qed

theorem poll_error_row_witness:
  "isValidUUID ''123e4567-e89b-42d3-a456-426614174000'' \<and>
   fetchAt failingWorld 2 = FetchData (Some failedRow) \<and> row_status failedRow = ''error'' \<and>
   poll guestContext failingWorld ''123e4567-e89b-42d3-a456-426614174000'' 2 =
     [GetSession, Query ''123e4567-e89b-42d3-a456-426614174000'' None,
      SetResult (Some (newResult failedRow)), SetError (Some ''model overloaded'')]"
proof -
  have v: "isValidUUID ''123e4567-e89b-42d3-a456-426614174000''"
    by code_simp
  have f: "fetchAt failingWorld 2 = FetchData (Some failedRow)"
    by (simp add: failingWorld_def)
  have s: "row_status failedRow = ''error''"
    by (simp add: failedRow_def)
  have d: "derivedErrorText failedRow = ''model overloaded''"
    by (simp add: derivedErrorText_def failedRow_def truthy_def orDefault_def)
  have u: "userFilter guestContext (sessionAt failingWorld 2) = None"
    by (simp add: userFilter_def guestContext_def failingWorld_def)
  from poll_error_row[OF v f s, of guestContext] v f s d u show ?thesis by simp
qed

text \<open>
  C4. When the title is empty after trimming, or when the text content is empty after
  trimming and the image data and the voice URL are empty or absent, \<^verbatim>\<open>submitProblem\<close>
  returns \<^verbatim>\<open>null\<close>, sets one of the two validation messages, starts no polling loop and
  makes no network call: no session lookup, no call to the endpoint, no status query.
\<close>

theorem submitProblem_validation:
  assumes "trim (title d) = [] \<or>
           (\<not> truthy (map_option trim (textContent d)) \<and> \<not> truthy (imageData d) \<and>
            \<not> truthy (voiceUrl d))"
  shows "returned (submitProblem ctx env d) = None \<and>
         polling (submitProblem ctx env d) = None \<and>
         filter isNetworkCall (events (submitProblem ctx env d)) = [] \<and>
         (\<exists>msg. (msg = ''Problem title is required'' \<or> msg = ''Problem content is required'') \<and>
            events (submitProblem ctx env d) =
              [SetError None, SetResult None, SetIsSubmitting True,
               SetError (Some msg), SetIsSubmitting False])"
  using assms by (auto simp: submitProblem_def Let_def)

lemma not_truthy_trim: "\<not> truthy x \<Longrightarrow> \<not> truthy (map_option trim x)"
  by (cases x) (auto simp: truthy_def trim_def)

theorem submitProblem_validation_witness:
  "trim (title blankTitle) = [] \<and>
   returned (submitProblem guestContext guestWorld blankTitle) = None \<and>
   events (submitProblem guestContext guestWorld blankTitle) =
     [SetError None, SetResult None, SetIsSubmitting True,
      SetError (Some ''Problem title is required''), SetIsSubmitting False]"
proof -
  have t: "trim (title blankTitle) = []"
    by (simp add: blankTitle_def trim_def isWhiteSpace_def whiteSpaceChars_def)
  then have e: "events (submitProblem guestContext guestWorld blankTitle) =
     [SetError None, SetResult None, SetIsSubmitting True,
      SetError (Some ''Problem title is required''), SetIsSubmitting False]"
    by (simp add: submitProblem_def)
  from submitProblem_validation[of blankTitle guestContext guestWorld] t e show ?thesis by blast
qed

text \<open>
  C3. When the request is sent and the endpoint answers with success and a well-formed
  problem identifier, \<^verbatim>\<open>submitProblem\<close> returns the identifier; it starts the polling loop
  exactly when the status of the response is \<^verbatim>\<open>processing\<close> or \<^verbatim>\<open>pending\<close>, and not when it
  is \<^verbatim>\<open>completed\<close>. The polling loop begins with a timer of 1000 ms, a session lookup and the
  first status query.
\<close>

theorem submitProblem_polling:
  assumes "trim (title d) \<noteq> []"
    and "truthy (map_option trim (textContent d)) \<or> truthy (imageData d) \<or> truthy (voiceUrl d)"
    and "sessionResult env = (session, None)"
    and "resolveUser ctx session = Inr (uid, auth)"
    and "invoke env (requestBody d uid) auth = (Some r, e)" and "\<not> isError e"
    and "resp_success r" and "resp_problemId r = Some pid" and "isValidUUID pid"
  shows "returned (submitProblem ctx env d) = Some pid \<and>
         polling (submitProblem ctx env d) =
           (if resp_status r = Some ''processing'' \<or> resp_status r = Some ''pending''
            then Some (pollForCompletion (pollContext env) (pollEnv env) pid) else None) \<and>
         (resp_status r = Some ''completed'' \<longrightarrow> polling (submitProblem ctx env d) = None) \<and>
         take 3 (pollForCompletion (pollContext env) (pollEnv env) pid) =
           [SetTimeout 1000, GetSession,
            Query pid (userFilter (pollContext env) (sessionAt (pollEnv env) 0))] \<and>
         events (submitProblem ctx env d) =
           [SetError None, SetResult None, SetIsSubmitting True, GetSession,
            Invoke (requestBody d uid) auth, SetResult (Some (initialResult pid r)),
            SetIsSubmitting False]"
proof -
  have p: "truthy (Some pid)" "orDefault (Some pid) [] = pid"
    using isValidUUID_truthy[OF assms(9)] by simp_all
  have i: "interpretResponse (pollContext env) (pollEnv env) (Some r, e) =
      ([SetResult (Some (initialResult pid r))],
       Inr (pid, if resp_status r = Some ''processing'' \<or> resp_status r = Some ''pending''
                 then Some (pollForCompletion (pollContext env) (pollEnv env) pid) else None))"
    using assms(6-9) p by (auto simp: interpretResponse_def Let_def)
  have t: "tryBody ctx env d =
      ([GetSession, Invoke (requestBody d uid) auth, SetResult (Some (initialResult pid r))],
       Inr (pid, if resp_status r = Some ''processing'' \<or> resp_status r = Some ''pending''
                 then Some (pollForCompletion (pollContext env) (pollEnv env) pid) else None))"
    using assms(3-5) i by (simp add: tryBody_def)
  have q: "take 3 (pollForCompletion (pollContext env) (pollEnv env) pid) =
           [SetTimeout 1000, GetSession, Query pid (userFilter (pollContext env) (sessionAt (pollEnv env) 0))]"
    unfolding pollForCompletion_def using assms(9)
    by (subst poll.simps) (simp add: numeral_3_eq_3)
  show ?thesis
    using assms(1,2) t q by (auto simp: submitProblem_def Let_def)
qed

lemma rowStates_skip:
  "\<forall>w \<in> set pre. \<not> isSubmissionWrite w \<Longrightarrow> rowStates (pre @ ws) cur = rowStates ws cur"
proof (induction pre)
  case Nil
  then show ?case by simp
next
  case (Cons w pre)
  then show ?case by (cases w; cases cur) simp_all
qed

lemma createSubmission_created:
  assumes "createSubmission env b = (ws, Inr c)"
  shows "\<exists>pre. ws = pre @ [InsertSubmission (c_row c),
                      InsertAudit (c_userId c) ''problem_submission_created'' (c_problemId c)] \<and>
               (\<forall>w \<in> set pre. \<not> isSubmissionWrite w)"
    and "row_id (c_row c) = c_problemId c" and "processingRow (c_row c)"
    and "row_user_id (c_row c) = Some (c_userId c)"
  using assms
  by (auto simp: createSubmission_def Let_def processingRow_def
      split: if_splits sum.splits option.splits)

lemma createSubmission_failed:
  assumes "createSubmission env b = (ws, Inl msg)"
  shows "\<forall>r \<in> set (rowStates ws None). processingRow r"
  using assms
  by (auto simp: createSubmission_def Let_def processingRow_def
      split: if_splits sum.splits option.splits)

lemma createSubmission_rowStates:
  assumes "createSubmission env b = (ws, Inr c)"
  shows "rowStates (ws @ rest) None = c_row c # rowStates rest (Some (c_row c))"
proof -
  obtain pre where "ws = pre @ [InsertSubmission (c_row c),
      InsertAudit (c_userId c) ''problem_submission_created'' (c_problemId c)]"
      and "\<forall>w \<in> set pre. \<not> isSubmissionWrite w"
    using createSubmission_created(1)[OF assms] by blast
  then show ?thesis
    using rowStates_skip[of pre] by simp
qed

lemma applyUpdate_fields:
  "row_status (applyUpdate u r) = upd_status u"
  "row_error_message (applyUpdate u r) = keep (upd_error_message u) (row_error_message r)"
  "row_solution (applyUpdate u r) = keep (upd_solution u) (row_solution r)"
  "row_id (applyUpdate u r) = row_id r"
  by (simp_all add: applyUpdate_def)

lemma processingRow_invariant: "processingRow r \<Longrightarrow> rowInvariant r"
  by (simp add: processingRow_def rowInvariant_def)

lemma errorUpdate_invariant: "processingRow r \<Longrightarrow> rowInvariant (applyUpdate (errorUpdate msg) r)"
  unfolding rowInvariant_def applyUpdate_fields processingRow_def
  by (simp add: errorUpdate_def keep_def)

lemma completedUpdate_invariant:
  "processingRow r \<Longrightarrow> rowInvariant (applyUpdate (completedUpdate sol subj diff tgs) r)"
  unfolding rowInvariant_def applyUpdate_fields processingRow_def
  by (simp add: completedUpdate_def keep_def)

declare showNat.simps [simp del]

lemma processSubmission_rows:
  assumes "processingRow r" "row_id r = c_problemId c"
  shows "\<forall>x \<in> set (rowStates (fst (processSubmission env c)) (Some r)). rowInvariant x"
proof (cases "truthy (GOOGLE_API_KEY env)")
  case False
  then show ?thesis
    using assms by (simp add: processSubmission_def errorUpdate_invariant)
next
  case True
  show ?thesis
  proof (cases "gemini env")
    case (GeminiThrows msg)
    then show ?thesis using True by (simp add: processSubmission_def)
  next
    case (GeminiNotOk st)
    then show ?thesis using True assms by (simp add: processSubmission_def errorUpdate_invariant)
  next
    case (GeminiOk t)
    then show ?thesis
      using True assms
      by (cases "updateError env") (simp_all add: processSubmission_def Let_def completedUpdate_invariant)
  qed
qed

lemma serve_rows: "\<forall>r \<in> set (rowStates (fst (serve env req)) None). rowInvariant r"
proof (cases req)
  case Options
  then show ?thesis by (simp add: serve_def)
next
  case (Malformed msg)
  then show ?thesis by (simp add: serve_def)
next
  case (Post b)
  obtain ws res where cs: "createSubmission env b = (ws, res)"
    by (cases "createSubmission env b")
  show ?thesis
  proof (cases res)
    case (Inl msg)
    then show ?thesis
      using Post cs createSubmission_failed[of env b ws msg] processingRow_invariant
      by (auto simp: serve_def)
  next
    case (Inr c)
    obtain ws' resp where ps: "processSubmission env c = (ws', resp)"
      by (cases "processSubmission env c")
    have "rowStates (ws @ ws') None = c_row c # rowStates ws' (Some (c_row c))"
      using createSubmission_rowStates cs Inr by simp
    moreover have "\<forall>x \<in> set (rowStates ws' (Some (c_row c))). rowInvariant x"
      using processSubmission_rows[of "c_row c" c env] createSubmission_created(2,3) cs Inr ps
      by simp
    moreover have "rowInvariant (c_row c)"
      using createSubmission_created(3) cs Inr processingRow_invariant by simp
    ultimately show ?thesis
      using Post cs Inr ps by (simp add: serve_def)
  qed
qed

lemma orElse_None: "(orElse a None = None) = (\<not> truthy a)"
  by (cases a) (auto simp: orElse_def truthy_def)

lemma rowErrorMessage_None: "(rowErrorMessage data = None) = (row_status data \<noteq> ''error'')"
  using rowErrorMessage_derived[of data] by (auto simp: rowErrorMessage_def)

lemma newResult_error: "(status (newResult data) = ''error'') = (errorMessage (newResult data) \<noteq> None)"
  by (simp add: newResult_def rowErrorMessage_None)

lemma newResult_keeps_invariant:
  "(row_status data = ''completed'') = truthy (row_solution data) \<Longrightarrow> resultInvariant (newResult data)"
  by (auto simp: resultInvariant_def newResult_def rowErrorMessage_None orElse_None)

text \<open>
  C2 as stated fails for the result the polling loop produces from an arbitrary fetched row:
  the loop copies the status and the solution without comparing them. A row with status
  \<^verbatim>\<open>completed\<close> and no solution gives a completed result without solution, and a row in
  process that has a solution gives a result with a solution and without error message that
  is not completed.
\<close>

theorem newResult_invariant_counterexample:
  "row_status completedNoSolution = ''completed'' \<and> row_solution completedNoSolution = None \<and>
   \<not> resultInvariant (newResult completedNoSolution) \<and>
   row_status pendingWithSolution = ''processing'' \<and> row_solution pendingWithSolution = Some ''4'' \<and>
   \<not> resultInvariant (newResult pendingWithSolution)"
  by (simp add: completedNoSolution_def pendingWithSolution_def pendingRow_def resultInvariant_def
      newResult_def rowErrorMessage_def orElse_def truthy_def)

text \<open>
  C2, amended. Every state of the submission row that the remote handler writes has status
  \<^verbatim>\<open>completed\<close> exactly when its solution column is set and its error message is not, and
  status \<^verbatim>\<open>error\<close> exactly when its error message is set. The result the polling loop
  produces from any fetched row has status \<^verbatim>\<open>error\<close> exactly when its error message is
  present; it has status \<^verbatim>\<open>completed\<close> exactly when a solution is present and the error
  message is absent, provided the fetched row has status \<^verbatim>\<open>completed\<close> exactly when its
  solution is a non-empty string.
\<close>

theorem submission_invariant:
  "(\<forall>r \<in> set (rowStates (fst (serve env req)) None). rowInvariant r) \<and>
   ((status (newResult data) = ''error'') = (errorMessage (newResult data) \<noteq> None)) \<and>
   ((row_status data = ''completed'') = truthy (row_solution data)
      \<longrightarrow> resultInvariant (newResult data))"
  using serve_rows newResult_error newResult_keeps_invariant by blast

theorem submission_invariant_witness:
  "map row_status (rowStates (fst (serve answeringServer (Post (requestBody question None)))) None)
     = [''processing'', ''completed''] \<and>
   list_all rowInvariant
     (rowStates (fst (serve answeringServer (Post (requestBody question None)))) None) \<and>
   ((row_status (last (rowStates (fst (serve answeringServer (Post (requestBody question None)))) None))
       = ''completed'')
     = truthy (row_solution
         (last (rowStates (fst (serve answeringServer (Post (requestBody question None)))) None)))) \<and>
   resultInvariant
     (newResult (last (rowStates (fst (serve answeringServer (Post (requestBody question None)))) None)))"
proof -
  let ?rows = "rowStates (fst (serve answeringServer (Post (requestBody question None)))) None"
  have a: "map row_status ?rows = [''processing'', ''completed'']"
    by code_simp
  have b: "(row_status (last ?rows) = ''completed'') = truthy (row_solution (last ?rows))"
    by code_simp
  from submission_invariant[of answeringServer "Post (requestBody question None)" "last ?rows"] a b
  show ?thesis unfolding list_all_iff by blast
qed

lemma serve_Post:
  "serve env (Post b) =
     (case createSubmission env b of
        (ws, Inl msg) \<Rightarrow> (ws, failure msg)
      | (ws, Inr c) \<Rightarrow> (ws @ fst (processSubmission env c), snd (processSubmission env c)))"
  by (simp add: serve_def split: prod.splits sum.splits)




lemma interpretResponse_no_call:
  "filter isNetworkCall (fst (interpretResponse ctx penv answer)) = []"
  by (cases answer) (auto simp: interpretResponse_def Let_def split: option.splits)

lemma resolveUser_guest:
  assumes "\<not> truthy (case session of None \<Rightarrow> None | Some s \<Rightarrow> access_token s)"
    and "\<not> isAuthenticated ctx" and "user ctx = Some u" and "isGuest u"
  shows "resolveUser ctx session = Inr (None, None)"
  using assms by (simp add: resolveUser_def Let_def)

lemma guest_request:
  assumes "trim (title d) \<noteq> []"
    and "truthy (map_option trim (textContent d)) \<or> truthy (imageData d) \<or> truthy (voiceUrl d)"
    and "sessionResult env = (session, None)"
    and "\<not> truthy (case session of None \<Rightarrow> None | Some s \<Rightarrow> access_token s)"
    and "\<not> isAuthenticated ctx" and "user ctx = Some u" and "isGuest u"
  shows "filter isNetworkCall (events (submitProblem ctx env d)) =
           [GetSession, Invoke (requestBody d None) None]"
proof -
  obtain evs r where i: "interpretResponse (pollContext env) (pollEnv env)
      (invoke env (requestBody d None) None) = (evs, r)"
    by (cases "interpretResponse (pollContext env) (pollEnv env)
      (invoke env (requestBody d None) None)")
  have n: "filter isNetworkCall evs = []"
    using interpretResponse_no_call[of "pollContext env" "pollEnv env"
        "invoke env (requestBody d None) None"] i
    by simp
  have t: "tryBody ctx env d = ([GetSession, Invoke (requestBody d None) None] @ evs, r)"
    using assms(3) resolveUser_guest[OF assms(4-7)] i by (simp add: tryBody_def)
  show ?thesis
    using assms(1,2) t n by (cases r) (auto simp: submitProblem_def Let_def)
qed

lemma requestBody_no_user_id:
  "user_id (requestBody d None) = None"
  "map_of (bodyFields (requestBody d None)) ''user_id'' = None"
  by (simp_all add: requestBody_def bodyFields_def split: option.splits)

lemma serve_guest_request:
  assumes "trim (title d) \<noteq> []"
  shows "if inputType d = Text \<and> \<not> truthy (sanitizeOptional (text_content (requestBody d None)))
          then serve senv (Post (requestBody d None)) =
                 ([], failure ''text_content is required for text input type'')
          else \<exists>rest. fst (serve senv (Post (requestBody d None))) =
                 InsertUser (generateUUID (randomDraw senv))
                   (''guest-'' @ generateUUID (randomDraw senv) @ ''@secure.local'') True # rest"
proof -
  have f: "truthy (input_type (requestBody d None))" "truthy (req_title (requestBody d None))"
    "user_id (requestBody d None) = None" "session_id (requestBody d None) = None"
    "(input_type (requestBody d None) = Some ''text'') = (inputType d = Text)"
    using assms(1)
    by (cases "inputType d"; simp add: requestBody_def truthy_def inputTypeString_def)+
  show ?thesis
    unfolding serve_Post createSubmission_def Let_def using f
    by (auto simp: truthy_def split: sum.splits option.splits prod.splits)
qed

lemma question_valid:
  "trim (title question) \<noteq> []"
  "truthy (map_option trim (textContent question)) \<or> truthy (imageData question) \<or>
   truthy (voiceUrl question)"
  by (simp_all add: question_def trim_def isWhiteSpace_def whiteSpaceChars_def truthy_def)

lemma guestContext_guest:
  "\<not> truthy (case None :: Session option of None \<Rightarrow> None | Some s \<Rightarrow> access_token s)"
  "\<not> isAuthenticated guestContext"
  "user guestContext = Some \<lparr> userId = None, isGuest = True \<rparr>"
  "isGuest \<lparr> userId = None, isGuest = True \<rparr>"
  by (simp_all add: guestContext_def truthy_def)

lemma scriptQuestion_valid:
  "trim (title scriptQuestion) \<noteq> []"
  "truthy (map_option trim (textContent scriptQuestion)) \<or> truthy (imageData scriptQuestion) \<or>
   truthy (voiceUrl scriptQuestion)"
  by (simp_all add: scriptQuestion_def trim_def isWhiteSpace_def whiteSpaceChars_def truthy_def)

text \<open>
  C6 as stated fails for the remote handler: a text submission whose content is not blank
  passes the checks of \<^verbatim>\<open>submitProblem\<close>, but when the content is empty after sanitization
  the handler rejects the request before it creates a guest user. A guest who submits the
  text \<^verbatim>\<open><script>x</script>\<close> sends a body without \<^verbatim>\<open>user_id\<close> and is answered with status
  500; the handler has written nothing.
\<close>

theorem guest_rejected_counterexample:
  "trim (title scriptQuestion) \<noteq> [] \<and>
   truthy (map_option trim (textContent scriptQuestion)) \<and>
   sessionResult guestWorld = (None, None) \<and>
   \<not> isAuthenticated guestContext \<and>
   map_option isGuest (user guestContext) = Some True \<and>
   filter isNetworkCall (events (submitProblem guestContext guestWorld scriptQuestion)) =
     [GetSession, Invoke (requestBody scriptQuestion None) None] \<and>
   map fst (bodyFields (requestBody scriptQuestion None)) =
     [''input_type'', ''title'', ''text_content''] \<and>
   serve answeringServer (Post (requestBody scriptQuestion None)) =
     ([], failure ''text_content is required for text input type'') \<and>
   http_status (snd (serve answeringServer (Post (requestBody scriptQuestion None)))) = 500"
proof -
  have a: "trim (title scriptQuestion) \<noteq> []" "truthy (map_option trim (textContent scriptQuestion))"
    by (simp_all add: scriptQuestion_def trim_def isWhiteSpace_def whiteSpaceChars_def truthy_def)
  have b: "sessionResult guestWorld = (None, None)" "\<not> isAuthenticated guestContext"
    "map_option isGuest (user guestContext) = Some True"
    by (simp_all add: guestWorld_def guestContext_def)
  have s: "sessionResult guestWorld = (None, None)"
    by (simp add: guestWorld_def)
  have c: "filter isNetworkCall (events (submitProblem guestContext guestWorld scriptQuestion)) =
     [GetSession, Invoke (requestBody scriptQuestion None) None]"
    using guest_request[OF scriptQuestion_valid s guestContext_guest] .
  have d: "map fst (bodyFields (requestBody scriptQuestion None)) =
     [''input_type'', ''title'', ''text_content'']"
    by (simp add: bodyFields_def requestBody_def scriptQuestion_def)
  have x: "inputType scriptQuestion = Text"
    "\<not> truthy (sanitizeOptional (text_content (requestBody scriptQuestion None)))"
    by code_simp+
  have e: "serve answeringServer (Post (requestBody scriptQuestion None)) =
     ([], failure ''text_content is required for text input type'')"
    using serve_guest_request[OF scriptQuestion_valid(1), of answeringServer] x by simp
  have f: "http_status (snd (serve answeringServer (Post (requestBody scriptQuestion None)))) = 500"
    unfolding e by (simp add: failure_def)
  from a b c d e f show ?thesis by blast
qed

text \<open>
  C6, amended. When a guest submits (no access token in the session, not authenticated), the
  only network calls of \<^verbatim>\<open>submitProblem\<close> are the session lookup and one call to the endpoint
  without \<^verbatim>\<open>Authorization\<close> header, whose body has no \<^verbatim>\<open>user_id\<close> field. On that body the
  first effect of the remote handler is the insert of a guest user whose identifier it has
  generated itself, unless the submission is of type text and its text content is empty after
  sanitization: then the handler rejects the request and writes nothing.
\<close>

theorem guest_submission:
  assumes "trim (title d) \<noteq> []"
    and "truthy (map_option trim (textContent d)) \<or> truthy (imageData d) \<or> truthy (voiceUrl d)"
    and "sessionResult env = (session, None)"
    and "\<not> truthy (case session of None \<Rightarrow> None | Some s \<Rightarrow> access_token s)"
    and "\<not> isAuthenticated ctx" and "user ctx = Some u" and "isGuest u"
  shows "filter isNetworkCall (events (submitProblem ctx env d)) =
           [GetSession, Invoke (requestBody d None) None] \<and>
         user_id (requestBody d None) = None \<and>
         map_of (bodyFields (requestBody d None)) ''user_id'' = None \<and>
         (if inputType d = Text \<and> \<not> truthy (sanitizeOptional (text_content (requestBody d None)))
          then serve senv (Post (requestBody d None)) =
                 ([], failure ''text_content is required for text input type'')
          else \<exists>rest. fst (serve senv (Post (requestBody d None))) =
                 InsertUser (generateUUID (randomDraw senv))
                   (''guest-'' @ generateUUID (randomDraw senv) @ ''@secure.local'') True # rest)"
  using guest_request[OF assms] requestBody_no_user_id[of d] serve_guest_request[OF assms(1), of senv]
  by (simp only: simp_thms)

theorem guest_submission_witness:
  "trim (title question) \<noteq> [] \<and> sessionResult guestWorld = (None, None) \<and>
   \<not> isAuthenticated guestContext \<and>
   filter isNetworkCall (events (submitProblem guestContext guestWorld question)) =
     [GetSession, Invoke (requestBody question None) None] \<and>
   map fst (bodyFields (requestBody question None)) = [''input_type'', ''title'', ''text_content''] \<and>
   truthy (sanitizeOptional (text_content (requestBody question None))) \<and>
   hd (fst (serve answeringServer (Post (requestBody question None)))) =
     InsertUser ''01234567-89ab-4cde-b012-3456789abcde''
       ''guest-01234567-89ab-4cde-b012-3456789abcde@secure.local'' True \<and>
   trim (title scriptQuestion) \<noteq> [] \<and>
   inputType scriptQuestion = Text \<and>
   \<not> truthy (sanitizeOptional (text_content (requestBody scriptQuestion None))) \<and>
   fst (serve answeringServer (Post (requestBody scriptQuestion None))) = []"
proof -
  have s: "sessionResult guestWorld = (None, None)"
    by (simp add: guestWorld_def)
  have f: "map fst (bodyFields (requestBody question None)) = [''input_type'', ''title'', ''text_content'']"
    by (simp add: bodyFields_def requestBody_def question_def)
  have g: "generateUUID (randomDraw answeringServer) = ''01234567-89ab-4cde-b012-3456789abcde''"
    by code_simp
  have q: "truthy (sanitizeOptional (text_content (requestBody question None)))"
    by code_simp
  have x: "inputType scriptQuestion = Text"
    "\<not> truthy (sanitizeOptional (text_content (requestBody scriptQuestion None)))"
    by code_simp+
  from guest_submission[OF question_valid s guestContext_guest, of answeringServer] q g
  have h: "hd (fst (serve answeringServer (Post (requestBody question None)))) =
     InsertUser ''01234567-89ab-4cde-b012-3456789abcde''
       ''guest-01234567-89ab-4cde-b012-3456789abcde@secure.local'' True"
    and c: "filter isNetworkCall (events (submitProblem guestContext guestWorld question)) =
     [GetSession, Invoke (requestBody question None) None]"
    by auto
  from guest_submission[OF scriptQuestion_valid s guestContext_guest, of answeringServer] x
  have y: "fst (serve answeringServer (Post (requestBody scriptQuestion None))) = []"
    by simp
  from question_valid(1) scriptQuestion_valid(1) s guestContext_guest(2) f q h c x y
  show ?thesis by blast
qed

theorem submitProblem_polling_witness:
  "isValidUUID ''123e4567-e89b-42d3-a456-426614174000'' \<and>
   resolveUser guestContext None = Inr (None, None) \<and>
   returned (submitProblem guestContext guestWorld question)
     = Some ''123e4567-e89b-42d3-a456-426614174000'' \<and>
   polling (submitProblem guestContext guestWorld question)
     = Some (pollForCompletion guestContext pendingWorld ''123e4567-e89b-42d3-a456-426614174000'') \<and>
   returned (submitProblem guestContext completedWorld question)
     = Some ''123e4567-e89b-42d3-a456-426614174000'' \<and>
   polling (submitProblem guestContext completedWorld question) = None"
proof -
  let ?pid = "''123e4567-e89b-42d3-a456-426614174000''"
  let ?done = "processingResponse \<lparr> resp_status := Some ''completed'', resp_solution := Some ''4'' \<rparr>"
  have v: "isValidUUID ?pid"
    by code_simp
  have u: "resolveUser guestContext None = Inr (None, None)"
    using resolveUser_guest[OF guestContext_guest] .
  have s: "sessionResult guestWorld = (None, None)" "sessionResult completedWorld = (None, None)"
    by (simp_all add: guestWorld_def completedWorld_def)
  have i: "invoke guestWorld (requestBody question None) None = (Some processingResponse, None)"
    "invoke completedWorld (requestBody question None) None = (Some ?done, None)"
    by (simp_all add: guestWorld_def completedWorld_def)
  have e: "\<not> isError None"
    by (simp add: isError_def)
  have r: "resp_success processingResponse" "resp_problemId processingResponse = Some ?pid"
    "resp_status processingResponse = Some ''processing''"
    "resp_success ?done" "resp_problemId ?done = Some ?pid" "resp_status ?done = Some ''completed''"
    by (simp_all add: processingResponse_def)
  have p: "pollEnv guestWorld = pendingWorld" "pollContext guestWorld = guestContext"
    by (simp_all add: guestWorld_def)
  from submitProblem_polling[OF question_valid s(1) u i(1) e r(1,2) v]
    submitProblem_polling[OF question_valid s(2) u i(2) e r(4,5) v] r(3,6) p v u
  show ?thesis by simp
qed

end
